theory Spec2Isabelle
  imports Main "HOL-Library.Word"
begin

unbundle bit_operations_syntax

section \<open>Symbolization: unwind.cc\<close>

type_synonym uint64 = "64 word"

text \<open>
  \<^verbatim>\<open>SymbolMap\<close> is \<^verbatim>\<open>std::map<uint64_t, std::string>\<close>: the entries in ascending key
  order, one per key. Iterators are positions in that sequence; \<^verbatim>\<open>begin()\<close> is position
  0 and \<^verbatim>\<open>end()\<close> is the length.
\<close>

type_synonym SymbolMap = "(uint64 \<times> string) list"

text \<open>\<^verbatim>\<open>addr_to_symbol[k] = v\<close>: insert at the key's place, or overwrite.\<close>

fun map_assign :: "uint64 \<Rightarrow> string \<Rightarrow> SymbolMap \<Rightarrow> SymbolMap" where
  "map_assign k v [] = [(k, v)]"
| "map_assign k v ((k', v') # m) =
     (if k < k' then (k, v) # (k', v') # m
      else if k = k' then (k, v) # m
      else (k', v') # map_assign k v m)"

text \<open>\<^verbatim>\<open>lower_bound(addr)\<close>: the first position whose key is not below \<open>addr\<close>.\<close>

definition lower_bound :: "SymbolMap \<Rightarrow> uint64 \<Rightarrow> nat" where
  "lower_bound m addr = length (takeWhile (\<lambda>e. fst e < addr) m)"

text \<open>\<^verbatim>\<open>absl::Hex\<close> of an unsigned value: lower-case digits, no padding.\<close>

definition hex_digit :: "nat \<Rightarrow> char" where
  "hex_digit d = ''0123456789abcdef'' ! d"

fun Hex_nat :: "nat \<Rightarrow> string" where
  "Hex_nat n = (if n < 16 then [hex_digit n] else Hex_nat (n div 16) @ [hex_digit (n mod 16)])"

declare Hex_nat.simps [simp del]

definition Hex :: "uint64 \<Rightarrow> string" where
  "Hex w = Hex_nat (unat w)"

text \<open>
  \<^verbatim>\<open>DemangleSymbol\<close>. The C++ ABI's \<^verbatim>\<open>__cxa_demangle\<close> is a parameter: \<open>Some\<close> is a
  non-null result with status 0.
\<close>

definition DemangleSymbol :: "(string \<Rightarrow> string option) \<Rightarrow> string \<Rightarrow> string" where
  "DemangleSymbol cxa_demangle maybe_mangled =
     (case cxa_demangle maybe_mangled of
        Some symbol \<Rightarrow> symbol
      | None \<Rightarrow> maybe_mangled)"

definition GetSymbolAt :: "(string \<Rightarrow> string option) \<Rightarrow> SymbolMap \<Rightarrow> uint64 \<Rightarrow> string" where
  "GetSymbolAt cxa_demangle addr_to_symbol addr =
     (let entry_for_next_symbol = lower_bound addr_to_symbol addr in
      if entry_for_next_symbol \<noteq> length addr_to_symbol \<and> entry_for_next_symbol \<noteq> 0 then
        if fst (addr_to_symbol ! entry_for_next_symbol) = addr then
          DemangleSymbol cxa_demangle (snd (addr_to_symbol ! entry_for_next_symbol))
        else
          let entry_for_previous_symbol = entry_for_next_symbol - 1 in
          if snd (addr_to_symbol ! entry_for_previous_symbol) \<noteq> [] then
            DemangleSymbol cxa_demangle (snd (addr_to_symbol ! entry_for_previous_symbol))
              @ ''+0x'' @ Hex (addr - fst (addr_to_symbol ! entry_for_previous_symbol))
          else []
      else [])"

text \<open>
  \<^verbatim>\<open>LoadSymbolsMap\<close>. The fields of \<^verbatim>\<open>MapsEntry\<close> and \<^verbatim>\<open>ElfFile\<close> that the function reads
  (their declarations are in maps_parser.h and minielf.h). Reading and parsing
  \<^verbatim>\<open>/proc/<pid>/maps\<close> and parsing an ELF file are parameters: \<open>read_maps\<close> gives the
  status or the entries, \<open>parse_elf\<close> gives \<open>None\<close> when \<^verbatim>\<open>ParseFromFile\<close> is not ok;
  \<open>host_is_arm\<close> is \<^verbatim>\<open>sapi::host_cpu::IsArm64() || IsArm()\<close>.
\<close>

record MapsEntry =
  me_start :: uint64
  me_end :: uint64
  me_is_executable :: bool
  me_pgoff :: uint64
  me_inode :: uint64
  me_path :: string

record ElfSymbol =
  sym_address :: uint64
  sym_name :: string

record ElfFile =
  position_independent :: bool
  symbols :: "ElfSymbol list"

definition StartsWith :: "string \<Rightarrow> string \<Rightarrow> bool" where
  "StartsWith text prefix = (take (length prefix) text = prefix)"

definition EndsWith :: "string \<Rightarrow> string \<Rightarrow> bool" where
  "EndsWith text suffix =
     (length suffix \<le> length text \<and> drop (length text - length suffix) text = suffix)"

text \<open>The test at the head of the loop over the entries: the regions that are not skipped.\<close>

definition accepted :: "MapsEntry \<Rightarrow> bool" where
  "accepted entry =
     (\<not> (\<not> me_is_executable entry \<or> me_inode entry = 0 \<or> me_path entry = []
         \<or> EndsWith (me_path entry) '' (deleted)''))"

text \<open>The name stored at the start of a region.\<close>

definition map_name :: "MapsEntry \<Rightarrow> string" where
  "map_name entry =
     (let map = ''map:'' @ me_path entry
      in if me_pgoff entry \<noteq> 0 then map @ ''+0x'' @ Hex (me_pgoff entry) else map)"

text \<open>The address under which a symbol of the region's file is stored, if it is stored.\<close>

definition symbol_key :: "bool \<Rightarrow> ElfFile \<Rightarrow> MapsEntry \<Rightarrow> ElfSymbol \<Rightarrow> uint64 option" where
  "symbol_key host_is_arm elf entry symbol =
     (if host_is_arm
         \<and> (StartsWith (sym_name symbol) ''$x'' \<or> StartsWith (sym_name symbol) ''$d''
            \<or> StartsWith (sym_name symbol) ''$t'' \<or> StartsWith (sym_name symbol) ''$a''
            \<or> StartsWith (sym_name symbol) ''$v'') then None
      else if position_independent elf then
        (if sym_address symbol \<ge> me_pgoff entry
            \<and> sym_address symbol - me_pgoff entry < me_end entry - me_start entry
         then Some (sym_address symbol + me_start entry - me_pgoff entry) else None)
      else
        (if sym_address symbol \<ge> me_start entry \<and> sym_address symbol < me_end entry
         then Some (sym_address symbol) else None))"

definition LoadSymbolsMap_symbol ::
  "bool \<Rightarrow> ElfFile \<Rightarrow> MapsEntry \<Rightarrow> ElfSymbol \<Rightarrow> SymbolMap \<Rightarrow> SymbolMap" where
  "LoadSymbolsMap_symbol host_is_arm elf entry symbol addr_to_symbol =
     (case symbol_key host_is_arm elf entry symbol of
        None \<Rightarrow> addr_to_symbol
      | Some addr \<Rightarrow> map_assign addr (sym_name symbol) addr_to_symbol)"

definition LoadSymbolsMap_entry ::
  "bool \<Rightarrow> (string \<Rightarrow> ElfFile option) \<Rightarrow> MapsEntry \<Rightarrow> SymbolMap \<Rightarrow> SymbolMap" where
  "LoadSymbolsMap_entry host_is_arm parse_elf entry addr_to_symbol =
     (if \<not> accepted entry then addr_to_symbol
      else
        let m1 = map_assign (me_start entry) (map_name entry) addr_to_symbol;
            m2 = map_assign (me_end entry) [] m1
        in case parse_elf (me_path entry) of
             None \<Rightarrow> m2
           | Some elf \<Rightarrow> fold (LoadSymbolsMap_symbol host_is_arm elf entry) (symbols elf) m2)"

definition LoadSymbolsMap ::
  "bool \<Rightarrow> (int \<Rightarrow> string + MapsEntry list) \<Rightarrow> (string \<Rightarrow> ElfFile option) \<Rightarrow> int
   \<Rightarrow> string + SymbolMap" where
  "LoadSymbolsMap host_is_arm read_maps parse_elf pid =
     (case read_maps pid of
        Inl status \<Rightarrow> Inl status
      | Inr maps \<Rightarrow> Inr (fold (LoadSymbolsMap_entry host_is_arm parse_elf) maps []))"

text \<open>
  The entries of \<^verbatim>\<open>/proc/<pid>/maps\<close> as the kernel writes them: no region is empty, and
  the regions come in ascending order without overlap.
\<close>

definition maps_ordered :: "MapsEntry list \<Rightarrow> bool" where
  "maps_ordered maps =
     (list_all (\<lambda>entry. me_start entry < me_end entry) maps
      \<and> sorted_wrt (\<lambda>entry later. me_end entry \<le> me_start later) maps)"

text \<open>The invariant of \<^verbatim>\<open>std::map\<close>: the keys ascend strictly.\<close>

abbreviation keys_sorted :: "SymbolMap \<Rightarrow> bool" where
  "keys_sorted m \<equiv> sorted_wrt (<) (map fst m)"

text \<open>
  Regions for the examples: \<^verbatim>\<open>/bin/x\<close> mapped executable at 0x1000-0x2000 and
  \<^verbatim>\<open>/lib/y\<close> at 0x3000-0x4000, both with page offset 0, and a non-PIE file with the one
  symbol \<^verbatim>\<open>main\<close> at 0x1800.
\<close>

definition example_entry :: MapsEntry where
  "example_entry =
     \<lparr>me_start = 0x1000, me_end = 0x2000, me_is_executable = True, me_pgoff = 0,
      me_inode = 1, me_path = ''/bin/x''\<rparr>"

definition example_entry2 :: MapsEntry where
  "example_entry2 =
     \<lparr>me_start = 0x3000, me_end = 0x4000, me_is_executable = True, me_pgoff = 0,
      me_inode = 2, me_path = ''/lib/y''\<rparr>"

definition example_elf :: ElfFile where
  "example_elf =
     \<lparr>position_independent = False, symbols = [\<lparr>sym_address = 0x1800, sym_name = ''main''\<rparr>]\<rparr>"

section \<open>The ptrace monitor: monitor_ptrace.cc\<close>

subsection \<open>Kernel interface\<close>

text \<open>
  C \<^verbatim>\<open>int\<close>, \<^verbatim>\<open>pid_t\<close>, \<^verbatim>\<open>uintptr_t\<close> and \<^verbatim>\<open>unsigned long\<close> values are integers; the one
  narrowing conversion of the file (an \<^verbatim>\<open>unsigned long\<close> event message passed as
  \<^verbatim>\<open>int\<close>) is written out. Signal, errno and ptrace-event numbers are those of Linux
  on x86-64 and the other asm-generic architectures.
\<close>

definition SIGTRAP :: int where "SIGTRAP = 5"
definition SIGKILL :: int where "SIGKILL = 9"
definition SIGSTOP :: int where "SIGSTOP = 19"
definition SIGTSTP :: int where "SIGTSTP = 20"
definition SIGTTIN :: int where "SIGTTIN = 21"
definition SIGTTOU :: int where "SIGTTOU = 22"
definition SIGSYS :: int where "SIGSYS = 31"

definition EPERM :: int where "EPERM = 1"
definition ESRCH :: int where "ESRCH = 3"
definition ECHILD :: int where "ECHILD = 10"
definition ENOSYS :: int where "ENOSYS = 38"

definition PTRACE_EVENT_FORK :: int where "PTRACE_EVENT_FORK = 1"
definition PTRACE_EVENT_VFORK :: int where "PTRACE_EVENT_VFORK = 2"
definition PTRACE_EVENT_CLONE :: int where "PTRACE_EVENT_CLONE = 3"
definition PTRACE_EVENT_EXEC :: int where "PTRACE_EVENT_EXEC = 4"
definition PTRACE_EVENT_VFORK_DONE :: int where "PTRACE_EVENT_VFORK_DONE = 5"
definition PTRACE_EVENT_EXIT :: int where "PTRACE_EVENT_EXIT = 6"
definition PTRACE_EVENT_SECCOMP :: int where "PTRACE_EVENT_SECCOMP = 7"
definition PTRACE_EVENT_STOP :: int where "PTRACE_EVENT_STOP = 128"

text \<open>The wait-status macros of \<^verbatim>\<open><sys/wait.h>\<close>, and \<^verbatim>\<open>__WPTRACEEVENT\<close> of the file.\<close>

definition signed_char :: "int \<Rightarrow> int" where
  "signed_char x = (if 128 \<le> x mod 256 then x mod 256 - 256 else x mod 256)"

definition WTERMSIG :: "int \<Rightarrow> int" where
  "WTERMSIG status = status AND 0x7f"

definition WEXITSTATUS :: "int \<Rightarrow> int" where
  "WEXITSTATUS status = drop_bit 8 (status AND 0xff00)"

definition WSTOPSIG :: "int \<Rightarrow> int" where
  "WSTOPSIG status = WEXITSTATUS status"

definition WIFEXITED :: "int \<Rightarrow> bool" where
  "WIFEXITED status = (WTERMSIG status = 0)"

definition WIFSIGNALED :: "int \<Rightarrow> bool" where
  "WIFSIGNALED status = (0 < signed_char ((status AND 0x7f) + 1) div 2)"

definition WIFSTOPPED :: "int \<Rightarrow> bool" where
  "WIFSTOPPED status = (status AND 0xff = 0x7f)"

definition WIFCONTINUED :: "int \<Rightarrow> bool" where
  "WIFCONTINUED status = (status = 0xffff)"

definition WPTRACEEVENT :: "int \<Rightarrow> int" where
  "WPTRACEEVENT x = drop_bit 16 (x AND 0xff0000)"

text \<open>An \<^verbatim>\<open>unsigned long\<close> passed for an \<^verbatim>\<open>int\<close> parameter keeps its low 32 bits, signed.\<close>

definition int_of_ulong :: "int \<Rightarrow> int" where
  "int_of_ulong x = (x + 2 ^ 31) mod 2 ^ 32 - 2 ^ 31"

subsection \<open>Result, Regs, Syscall\<close>

datatype StatusEnum =
  UNSET | OK | SETUP_ERROR | VIOLATION | SIGNALED | TIMEOUT | EXTERNAL_KILL | INTERNAL_ERROR

text \<open>
  The enumerators of \<^verbatim>\<open>Result::ReasonCodeEnum\<close> that the monitor uses. Their numeric
  values are declared in result.h; the monitor takes them through \<open>reason_value\<close> of its
  configuration.
\<close>

datatype ReasonCodeEnum =
  FAILED_SIGNALS | FAILED_PTRACE | FAILED_MONITOR | FAILED_FETCH | FAILED_INSPECT
  | FAILED_CHILD | FAILED_KILL | FAILED_INTERRUPT | FAILED_GETEVENT | VIOLATION_NETWORK

text \<open>
  Modelled from the spec: \<^verbatim>\<open>Syscall\<close> (syscall.h) and \<^verbatim>\<open>Regs\<close> (regs.h) are not among
  the sources. A Syscall is the immutable value \<^verbatim>\<open>{arch, nr, args[0..5], pid, sp, ip}\<close>;
  \<^verbatim>\<open>Regs::ToSyscall(arch)\<close> packages the register file of a PID into one, and
  \<^verbatim>\<open>GetReturnValue\<close> reads the return register.
\<close>

record Syscall =
  sc_arch :: int
  sc_nr :: int
  sc_args :: "int list"
  sc_pid :: int
  sc_sp :: int
  sc_ip :: int

record Regs =
  regs_pid :: int
  regs_nr :: int
  regs_args :: "int list"
  regs_sp :: int
  regs_ip :: int
  regs_ret :: int

definition ToSyscall :: "Regs \<Rightarrow> int \<Rightarrow> Syscall" where
  "ToSyscall regs syscall_arch =
     \<lparr>sc_arch = syscall_arch, sc_nr = regs_nr regs, sc_args = regs_args regs,
      sc_pid = regs_pid regs, sc_sp = regs_sp regs, sc_ip = regs_ip regs\<rparr>"

definition GetReturnValue :: "Regs \<Rightarrow> int" where
  "GetReturnValue regs = regs_ret regs"

record Result =
  final_status :: StatusEnum
  reason_code :: int
  result_regs :: "Regs option"
  result_syscall :: "Syscall option"
  prog_name :: string
  proc_maps :: string
  stack_trace :: "string list"
  network_violation :: string

subsection \<open>What the monitor does to the outside, and what the outside answers\<close>

datatype TraceAction = kAllow | kDeny | kInspectAfterReturn

datatype ViolationType = kSyscallViolation | kArchitectureSwitchViolation

text \<open>The calls the monitor makes that act on the sandboxee or on the user's Notify object.\<close>

datatype Effect =
    Ptrace_CONT int int
  | Ptrace_LISTEN int int
  | Ptrace_SYSCALL int int
  | Ptrace_INTERRUPT int
  | Kill int int
  | Regs_Fetch int
  | Regs_SkipSyscallReturnValue int int
  | Notify_EventSyscallTrace Syscall
  | Notify_EventSyscallReturn Syscall int
  | Notify_EventSyscallViolation Syscall ViolationType
  | Notify_EventSignal int int
  | LogFile_Print int Syscall
  | StackTrace_Get int
  | Sigtimedwait

datatype FetchResult = FetchOk Regs | FetchNotFound | FetchError

datatype PtraceRet = PtraceOk int | PtraceErr int

datatype KillSite = OnTimeout | OnExternalKill | OnNetworkViolation

datatype Crash = PCHECK_FAILED | CHECK_FAILED

text \<open>
  The monitor's fixed surroundings: the process descriptor, the flags, the policy and
  executor fields it reads, and the constants of headers outside the sources
  (architecture tags of config.h, syscall numbers, reason codes).
\<close>

record Config =
  main_pid :: int
  init_pid :: int
  log_file :: bool
  sandbox2_danger_danger_permit_all :: bool
  sandbox2_log_all_stack_traces :: bool
  sandbox2_stack_traces_collection_timeout :: int
  collect_stacktrace_on_exit :: bool
  ShouldCollectStackTrace :: "StatusEnum \<Rightarrow> bool"
  StackTraceCollectionPossible :: bool
  libunwind_sbox_for_pid :: int
  has_namespace :: bool
  has_network_proxy_server :: bool
  GetHostArch :: int
  kUnknown :: int
  kMax :: int
  NR_execve :: int
  NR_execveat :: int
  NR_clone :: int
  NR_clone3 :: "int option"
  NR_fork :: "int option"
  NR_vfork :: "int option"
  reason_value :: "ReasonCodeEnum \<Rightarrow> int"

text \<open>
  What the outside answers during one iteration of the event loop: the clock, the atomics
  other threads write, and the results of the system calls and callbacks.
\<close>

record World =
  now_millis :: int
  deadline_millis :: int
  dump_stack_requested :: bool
  external_kill_requested :: bool
  violation_occurred :: bool
  violation_msg :: string
  kill_ok :: "KillSite \<Rightarrow> bool"
  interrupt_ok :: bool
  waitpid_responses :: "(int \<times> int \<times> int) list"
  PTRACE_GETEVENTMSG :: "int \<Rightarrow> PtraceRet"
  Fetch :: "int \<Rightarrow> FetchResult"
  EventSyscallTrace :: "Syscall \<Rightarrow> TraceAction"
  fprintf_ok :: bool
  GetStackTrace :: "int \<Rightarrow> string list option"
  GetProgName :: "int \<Rightarrow> string"
  ReadProcMaps :: "int \<Rightarrow> string"

subsection \<open>Monitor state\<close>

record PtraceMonitor =
  result :: Result
  wait_for_execve :: bool
  syscalls_in_progress :: "int \<rightharpoonup> Syscall"
  timed_out :: bool
  external_kill :: bool
  network_violation_seen :: bool
  should_dump_stack :: bool
  effects :: "Effect list"

text \<open>The two writes to the \<^verbatim>\<open>syscalls_in_progress_\<close> table: \<^verbatim>\<open>table[pid] = syscall\<close> and \<^verbatim>\<open>erase\<close>.\<close>

definition table_store :: "int \<Rightarrow> Syscall \<Rightarrow> PtraceMonitor \<Rightarrow> PtraceMonitor" where
  "table_store pid syscall s =
     s\<lparr>syscalls_in_progress := fun_upd (syscalls_in_progress s) pid (Some syscall)\<rparr>"

definition table_erase :: "int \<Rightarrow> PtraceMonitor \<Rightarrow> PtraceMonitor" where
  "table_erase pid s = s\<lparr>syscalls_in_progress := fun_upd (syscalls_in_progress s) pid None\<rparr>"

definition emit :: "Effect \<Rightarrow> PtraceMonitor \<Rightarrow> PtraceMonitor" where
  "emit e s = s\<lparr>effects := effects s @ [e]\<rparr>"

text \<open>
  Modelled from the spec: \<^verbatim>\<open>SetExitStatusCode\<close> is defined in monitor_base.cc and
  result.h, which are not among the sources. The spec: setting final_status is
  idempotent, only the first non-UNSET assignment wins, and subsequent attempts to set
  it are silently dropped.
\<close>

definition SetExitStatusCode :: "StatusEnum \<Rightarrow> int \<Rightarrow> PtraceMonitor \<Rightarrow> PtraceMonitor" where
  "SetExitStatusCode status code s =
     (if final_status (result s) \<noteq> UNSET then s
      else s\<lparr>result := (result s)\<lparr>final_status := status, reason_code := code\<rparr>\<rparr>)"

definition IsActivelyMonitoring :: "PtraceMonitor \<Rightarrow> bool" where
  "IsActivelyMonitoring s = (\<not> wait_for_execve s)"

definition SetActivelyMonitoring :: "PtraceMonitor \<Rightarrow> PtraceMonitor" where
  "SetActivelyMonitoring s = s\<lparr>wait_for_execve := False\<rparr>"

text \<open>
  \<^verbatim>\<open>ContinueProcess\<close>, \<^verbatim>\<open>StopProcess\<close>, \<^verbatim>\<open>CompleteSyscall\<close>: one ptrace request each; a
  failing request is logged and changes nothing in the monitor.
\<close>

definition ContinueProcess :: "int \<Rightarrow> int \<Rightarrow> PtraceMonitor \<Rightarrow> PtraceMonitor" where
  "ContinueProcess pid signo s = emit (Ptrace_CONT pid signo) s"

definition StopProcess :: "int \<Rightarrow> int \<Rightarrow> PtraceMonitor \<Rightarrow> PtraceMonitor" where
  "StopProcess pid signo s = emit (Ptrace_LISTEN pid signo) s"

definition CompleteSyscall :: "int \<Rightarrow> int \<Rightarrow> PtraceMonitor \<Rightarrow> PtraceMonitor" where
  "CompleteSyscall pid signo s = emit (Ptrace_SYSCALL pid signo) s"

definition GetAndLogStackTrace :: "World \<Rightarrow> int \<Rightarrow> PtraceMonitor \<Rightarrow> PtraceMonitor" where
  "GetAndLogStackTrace w pid s = emit (StackTrace_Get pid) s"

definition SetAdditionalResultInfo :: "Config \<Rightarrow> World \<Rightarrow> Regs \<Rightarrow> PtraceMonitor \<Rightarrow> PtraceMonitor" where
  "SetAdditionalResultInfo cfg w regs s =
     (let pid = regs_pid regs;
          s1 = s\<lparr>result := (result s)\<lparr>result_regs := Some regs,
                                       prog_name := GetProgName w pid,
                                       proc_maps := ReadProcMaps w pid\<rparr>\<rparr>
      in if \<not> ShouldCollectStackTrace cfg (final_status (result s1)) then s1
         else
           let s2 = GetAndLogStackTrace w pid s1 in
           case GetStackTrace w pid of
             None \<Rightarrow> s2
           | Some trace \<Rightarrow> s2\<lparr>result := (result s2)\<lparr>stack_trace := trace\<rparr>\<rparr>)"

definition KillSandboxee :: "Config \<Rightarrow> World \<Rightarrow> KillSite \<Rightarrow> PtraceMonitor \<Rightarrow> bool \<times> PtraceMonitor" where
  "KillSandboxee cfg w site s =
     (let s1 = emit (Kill (main_pid cfg) SIGKILL) s in
      if \<not> kill_ok w site then
        (False, SetExitStatusCode INTERNAL_ERROR (reason_value cfg FAILED_KILL) s1)
      else (True, s1))"

definition InterruptSandboxee :: "Config \<Rightarrow> World \<Rightarrow> PtraceMonitor \<Rightarrow> bool \<times> PtraceMonitor" where
  "InterruptSandboxee cfg w s =
     (let s1 = emit (Ptrace_INTERRUPT (main_pid cfg)) s in
      if \<not> interrupt_ok w then
        (False, SetExitStatusCode INTERNAL_ERROR (reason_value cfg FAILED_INTERRUPT) s1)
      else (True, s1))"

subsection \<open>Syscall handling\<close>

definition ActionProcessSyscallViolation ::
  "Config \<Rightarrow> World \<Rightarrow> Regs \<Rightarrow> Syscall \<Rightarrow> ViolationType \<Rightarrow> PtraceMonitor \<Rightarrow> PtraceMonitor" where
  "ActionProcessSyscallViolation cfg w regs syscall violation_type s =
     (let s1 = emit (Notify_EventSyscallViolation syscall violation_type) s;
          s2 = SetExitStatusCode VIOLATION (sc_nr syscall) s1;
          s3 = s2\<lparr>result := (result s2)\<lparr>result_syscall := Some syscall\<rparr>\<rparr>;
          s4 = SetAdditionalResultInfo cfg w regs s3
      in emit (Regs_SkipSyscallReturnValue (regs_pid regs) (- ENOSYS)) s4)"

definition ActionProcessSyscall ::
  "Config \<Rightarrow> World \<Rightarrow> Regs \<Rightarrow> Syscall \<Rightarrow> PtraceMonitor \<Rightarrow> Crash + PtraceMonitor" where
  "ActionProcessSyscall cfg w regs syscall s =
     (if sc_nr syscall = NR_execveat cfg \<and> \<not> IsActivelyMonitoring s then
        Inr (ContinueProcess (regs_pid regs) 0 s)
      else
        let trace_response = EventSyscallTrace w syscall;
            s1 = emit (Notify_EventSyscallTrace syscall) s
        in if trace_response = kAllow then
             Inr (ContinueProcess (regs_pid regs) 0 s1)
           else if trace_response = kInspectAfterReturn then
             Inr (CompleteSyscall (regs_pid regs) 0 (table_store (regs_pid regs) syscall s1))
           else if log_file cfg then
             (if \<not> fprintf_ok w then Inl PCHECK_FAILED
              else Inr (ContinueProcess (regs_pid regs) 0
                          (emit (LogFile_Print (regs_pid regs) syscall) s1)))
           else if sandbox2_danger_danger_permit_all cfg then
             Inr (ContinueProcess (regs_pid regs) 0 s1)
           else
             Inr (ActionProcessSyscallViolation cfg w regs syscall kSyscallViolation s1))"

definition EventPtraceSeccomp ::
  "Config \<Rightarrow> World \<Rightarrow> int \<Rightarrow> int \<Rightarrow> PtraceMonitor \<Rightarrow> Crash + PtraceMonitor" where
  "EventPtraceSeccomp cfg w pid event_msg s =
     (if event_msg < kUnknown cfg \<or> event_msg > kMax cfg then Inr s
      else
        let syscall_arch = event_msg;
            s1 = emit (Regs_Fetch pid) s
        in case Fetch w pid of
             FetchNotFound \<Rightarrow> Inr s1
           | FetchError \<Rightarrow>
               Inr (SetExitStatusCode INTERNAL_ERROR (reason_value cfg FAILED_FETCH) s1)
           | FetchOk fetched \<Rightarrow>
               let regs = fetched\<lparr>regs_pid := pid\<rparr>;
                   syscall = ToSyscall regs syscall_arch
               in if syscall_arch \<noteq> GetHostArch cfg then
                    Inr (ActionProcessSyscallViolation cfg w regs syscall
                           kArchitectureSwitchViolation s1)
                  else ActionProcessSyscall cfg w regs syscall s1)"

definition EventSyscallExit :: "Config \<Rightarrow> World \<Rightarrow> int \<Rightarrow> PtraceMonitor \<Rightarrow> PtraceMonitor" where
  "EventSyscallExit cfg w pid s =
     (case syscalls_in_progress s pid of
        None \<Rightarrow> SetExitStatusCode INTERNAL_ERROR (reason_value cfg FAILED_INSPECT) s
      | Some index_second \<Rightarrow>
          let s1 = emit (Regs_Fetch pid) s
          in (case Fetch w pid of
                FetchNotFound \<Rightarrow> s1
              | FetchError \<Rightarrow>
                  SetExitStatusCode INTERNAL_ERROR (reason_value cfg FAILED_FETCH) s1
              | FetchOk fetched \<Rightarrow>
                  let regs = fetched\<lparr>regs_pid := pid\<rparr>;
                      return_value = GetReturnValue regs;
                      s2 = emit (Notify_EventSyscallReturn index_second return_value) s1;
                      s3 = table_erase pid s2
                  in ContinueProcess pid 0 s3))"

definition EventPtraceNewProcess ::
  "Config \<Rightarrow> int \<Rightarrow> int \<Rightarrow> PtraceMonitor \<Rightarrow> PtraceMonitor" where
  "EventPtraceNewProcess cfg pid event_msg s =
     (case syscalls_in_progress s pid of
        None \<Rightarrow> ContinueProcess pid 0 s
      | Some index_second \<Rightarrow>
          let syscall_nr = sc_nr index_second;
              creating_new_process =
                (syscall_nr = NR_clone cfg \<or> NR_clone3 cfg = Some syscall_nr
                 \<or> NR_fork cfg = Some syscall_nr \<or> NR_vfork cfg = Some syscall_nr)
          in if \<not> creating_new_process then
               SetExitStatusCode INTERNAL_ERROR (reason_value cfg FAILED_INSPECT) s
             else
               let s1 = emit (Notify_EventSyscallReturn index_second event_msg) s;
                   s2 = table_erase pid s1
               in ContinueProcess pid 0 s2)"

definition EventPtraceExec ::
  "Config \<Rightarrow> int \<Rightarrow> int \<Rightarrow> PtraceMonitor \<Rightarrow> PtraceMonitor" where
  "EventPtraceExec cfg pid event_msg s =
     (if \<not> IsActivelyMonitoring s then ContinueProcess pid 0 (SetActivelyMonitoring s)
      else
        case syscalls_in_progress s pid of
          None \<Rightarrow> ContinueProcess pid 0 s
        | Some index_second \<Rightarrow>
            let syscall_nr = sc_nr index_second
            in if syscall_nr \<noteq> NR_execve cfg \<and> syscall_nr \<noteq> NR_execveat cfg then
                 SetExitStatusCode INTERNAL_ERROR (reason_value cfg FAILED_INSPECT) s
               else
                 let s1 = emit (Notify_EventSyscallReturn index_second 0) s;
                     s2 = table_erase pid s1
                 in ContinueProcess pid 0 s2)"

text \<open>A \<^verbatim>\<open>Regs\<close> object that was constructed for a PID and not fetched.\<close>

definition unfetched_regs :: "int \<Rightarrow> Regs" where
  "unfetched_regs pid =
     \<lparr>regs_pid = pid, regs_nr = 0, regs_args = [], regs_sp = 0, regs_ip = 0, regs_ret = 0\<rparr>"

text \<open>The choice of the final status for the main PID in \<^verbatim>\<open>EventPtraceExit\<close>.\<close>

definition EventPtraceExit_main_status ::
  "Config \<Rightarrow> World \<Rightarrow> int \<Rightarrow> PtraceMonitor \<Rightarrow> PtraceMonitor" where
  "EventPtraceExit_main_status cfg w event_msg s =
     (if network_violation_seen s then
        (let s' = SetExitStatusCode VIOLATION (reason_value cfg VIOLATION_NETWORK) s
         in s'\<lparr>result := (result s')\<lparr>network_violation := violation_msg w\<rparr>\<rparr>)
      else if external_kill s then SetExitStatusCode EXTERNAL_KILL 0 s
      else if timed_out s then SetExitStatusCode TIMEOUT 0 s
      else if WIFEXITED event_msg then SetExitStatusCode OK (WEXITSTATUS event_msg) s
      else SetExitStatusCode SIGNALED (WTERMSIG event_msg) s)"

definition EventPtraceExit ::
  "Config \<Rightarrow> World \<Rightarrow> int \<Rightarrow> int \<Rightarrow> PtraceMonitor \<Rightarrow> PtraceMonitor" where
  "EventPtraceExit cfg w pid event_msg s0 =
     (let s = table_erase pid s0 in
      if WIFEXITED event_msg \<and> (\<not> collect_stacktrace_on_exit cfg \<or> pid \<noteq> main_pid cfg) then
        ContinueProcess pid 0 s
      else
        let is_seccomp = (WIFSIGNALED event_msg \<and> WTERMSIG event_msg = SIGSYS);
            log_stack_trace = sandbox2_log_all_stack_traces cfg;
            fetches = (is_seccomp \<or> pid = main_pid cfg \<or> log_stack_trace);
            s1 = (if fetches then emit (Regs_Fetch pid) s else s)
        in case (if fetches then Fetch w pid else FetchOk (unfetched_regs pid)) of
             FetchNotFound \<Rightarrow>
               SetExitStatusCode INTERNAL_ERROR (reason_value cfg FAILED_FETCH) s1
           | FetchError \<Rightarrow>
               SetExitStatusCode INTERNAL_ERROR (reason_value cfg FAILED_FETCH) s1
           | FetchOk fetched \<Rightarrow>
               let regs = fetched\<lparr>regs_pid := pid\<rparr>
               in if is_seccomp then
                    ActionProcessSyscallViolation cfg w regs (ToSyscall regs (GetHostArch cfg))
                      kSyscallViolation s1
                  else if pid = main_pid cfg then
                    ContinueProcess pid 0
                      (SetAdditionalResultInfo cfg w regs
                         (EventPtraceExit_main_status cfg w event_msg s1))
                  else if log_stack_trace then
                    ContinueProcess pid 0
                      (if StackTraceCollectionPossible cfg then GetAndLogStackTrace w pid s1
                       else s1)
                  else ContinueProcess pid 0 s1)"

definition EventPtraceStop :: "int \<Rightarrow> int \<Rightarrow> PtraceMonitor \<Rightarrow> PtraceMonitor" where
  "EventPtraceStop pid stopsig s =
     (if stopsig \<noteq> SIGSTOP \<and> stopsig \<noteq> SIGTSTP \<and> stopsig \<noteq> SIGTTIN \<and> stopsig \<noteq> SIGTTOU then
        ContinueProcess pid 0 s
      else StopProcess pid 0 s)"

text \<open>The stack dump that \<^verbatim>\<open>StateProcessStopped\<close> takes for the main PID on request.\<close>

definition StateProcessStopped_dump_stack ::
  "Config \<Rightarrow> World \<Rightarrow> int \<Rightarrow> PtraceMonitor \<Rightarrow> PtraceMonitor" where
  "StateProcessStopped_dump_stack cfg w pid s =
     (if pid = main_pid cfg \<and> should_dump_stack s
         \<and> libunwind_sbox_for_pid cfg = 0 \<and> has_namespace cfg then
        (let s1 = emit (Regs_Fetch pid) s;
             s2 = (case Fetch w pid of
                     FetchOk fetched \<Rightarrow> emit (StackTrace_Get pid) s1
                   | FetchNotFound \<Rightarrow> s1
                   | FetchError \<Rightarrow> s1)
         in s2\<lparr>should_dump_stack := False\<rparr>)
      else s)"

definition StateProcessStopped ::
  "Config \<Rightarrow> World \<Rightarrow> int \<Rightarrow> int \<Rightarrow> PtraceMonitor \<Rightarrow> Crash + PtraceMonitor" where
  "StateProcessStopped cfg w pid status s =
     (let stopsig = WSTOPSIG status;
          is_syscall_exit = (stopsig = SIGTRAP OR 0x80)
      in if WPTRACEEVENT status = 0 \<and> \<not> is_syscall_exit then
           Inr (ContinueProcess pid stopsig (emit (Notify_EventSignal pid stopsig) s))
         else
           case PTRACE_GETEVENTMSG w pid of
             PtraceErr e \<Rightarrow>
               (if e = ESRCH then Inr s
                else Inr (SetExitStatusCode INTERNAL_ERROR (reason_value cfg FAILED_GETEVENT) s))
           | PtraceOk event_msg \<Rightarrow>
               let s1 = StateProcessStopped_dump_stack cfg w pid s;
                   ev = WPTRACEEVENT status
               in if is_syscall_exit then Inr (EventSyscallExit cfg w pid s1)
                  else if ev = PTRACE_EVENT_FORK then
                    Inr (EventPtraceNewProcess cfg pid (int_of_ulong event_msg) s1)
                  else if ev = PTRACE_EVENT_VFORK then
                    Inr (EventPtraceNewProcess cfg pid (int_of_ulong event_msg) s1)
                  else if ev = PTRACE_EVENT_CLONE then
                    Inr (EventPtraceNewProcess cfg pid (int_of_ulong event_msg) s1)
                  else if ev = PTRACE_EVENT_VFORK_DONE then Inr (ContinueProcess pid 0 s1)
                  else if ev = PTRACE_EVENT_EXEC then
                    Inr (EventPtraceExec cfg pid (int_of_ulong event_msg) s1)
                  else if ev = PTRACE_EVENT_EXIT then
                    Inr (EventPtraceExit cfg w pid (int_of_ulong event_msg) s1)
                  else if ev = PTRACE_EVENT_STOP then Inr (EventPtraceStop pid stopsig s1)
                  else if ev = PTRACE_EVENT_SECCOMP then
                    EventPtraceSeccomp cfg w pid (int_of_ulong event_msg) s1
                  else Inr s1)"

subsection \<open>PidWaiter\<close>

text \<open>
  The kernel is a script: the answers \<open>(ret, status, errno)\<close> it gives to the next
  \<^verbatim>\<open>waitpid\<close> calls, in order. A refill that is still polling when the script ends has
  no value (\<open>None\<close>). The PID argument of every call is recorded.
\<close>

record PidWaiter =
  priority_pid :: int
  statuses :: "(int \<times> int) list"
  last_errno :: int

definition PidWaiter_init :: "int \<Rightarrow> PidWaiter" where
  "PidWaiter_init priority = \<lparr>priority_pid = priority, statuses = [], last_errno = 0\<rparr>"

fun RefillStatuses_loop ::
  "int \<Rightarrow> PidWaiter \<Rightarrow> (int \<times> int \<times> int) list \<Rightarrow> int list
   \<Rightarrow> (PidWaiter \<times> (int \<times> int \<times> int) list \<times> int list) option" where
  "RefillStatuses_loop pid pw [] calls = None"
| "RefillStatuses_loop pid pw ((ret, status, err) # answers) calls =
     (if ret > 0 then
        RefillStatuses_loop (- 1) (pw\<lparr>statuses := statuses pw @ [(ret, status)]\<rparr>) answers
          (calls @ [pid])
      else if ret < 0 then Some (pw\<lparr>last_errno := err\<rparr>, answers, calls @ [pid])
      else if pid = - 1 then Some (pw, answers, calls @ [pid])
      else RefillStatuses_loop (- 1) pw answers (calls @ [pid]))"

definition RefillStatuses ::
  "PidWaiter \<Rightarrow> (int \<times> int \<times> int) list
   \<Rightarrow> (PidWaiter \<times> (int \<times> int \<times> int) list \<times> int list) option" where
  "RefillStatuses pw answers =
     RefillStatuses_loop (priority_pid pw) (pw\<lparr>statuses := [], last_errno := 0\<rparr>) answers []"

text \<open>
  What one call of \<^verbatim>\<open>Wait\<close> hands back: the returned value, the value stored through
  \<^verbatim>\<open>status\<close> if one was stored, and the value assigned to \<^verbatim>\<open>errno\<close> if one was.
\<close>

record WaitReturn =
  wr_ret :: int
  wr_status :: "int option"
  wr_errno :: "int option"

definition Wait ::
  "PidWaiter \<Rightarrow> (int \<times> int \<times> int) list
   \<Rightarrow> (WaitReturn \<times> PidWaiter \<times> (int \<times> int \<times> int) list \<times> int list) option" where
  "Wait pw answers =
     (case (if statuses pw = [] \<and> last_errno pw = 0 then RefillStatuses pw answers
            else Some (pw, answers, [])) of
        None \<Rightarrow> None
      | Some (pw1, rest, calls) \<Rightarrow>
          (case statuses pw1 of
             [] \<Rightarrow>
               if last_errno pw1 = 0 then
                 Some (\<lparr>wr_ret = 0, wr_status = None, wr_errno = None\<rparr>, pw1, rest, calls)
               else
                 Some (\<lparr>wr_ret = - 1, wr_status = None, wr_errno = Some (last_errno pw1)\<rparr>,
                       pw1\<lparr>last_errno := 0\<rparr>, rest, calls)
           | entry # queue \<Rightarrow>
               Some (\<lparr>wr_ret = fst entry, wr_status = Some (snd entry), wr_errno = None\<rparr>,
                     pw1\<lparr>statuses := queue\<rparr>, rest, calls)))"

text \<open>A caller that calls \<^verbatim>\<open>Wait\<close> \<open>n\<close> times in a row and keeps what each call returned.\<close>

fun Wait_times ::
  "nat \<Rightarrow> PidWaiter \<Rightarrow> (int \<times> int \<times> int) list
   \<Rightarrow> (WaitReturn list \<times> PidWaiter \<times> (int \<times> int \<times> int) list \<times> int list) option" where
  "Wait_times 0 pw answers = Some ([], pw, answers, [])"
| "Wait_times (Suc n) pw answers =
     (case Wait pw answers of
        None \<Rightarrow> None
      | Some (r, pw1, rest, calls) \<Rightarrow>
          (case Wait_times n pw1 rest of
             None \<Rightarrow> None
           | Some (rs, pw2, rest2, calls2) \<Rightarrow> Some (r # rs, pw2, rest2, calls @ calls2)))"

subsection \<open>Attaching: InitSetupSignals and InitPtraceAttach\<close>

text \<open>
  What the outside answers during set-up. \<open>now\<close> is the reading of the \<open>k\<close>-th call of
  \<^verbatim>\<open>absl::Now()\<close> in \<^verbatim>\<open>InitPtraceAttach\<close>, in milliseconds; \<open>seize\<close> is the errno of
  \<^verbatim>\<open>PTRACE_SEIZE\<close> on a task in a given round (0 for success). The retry loop has no
  bound of its own, so it runs on fuel: \<open>None\<close> is a loop still running when the fuel is
  spent.
\<close>

record Setup =
  sigemptyset_ok :: bool
  sigaddset_ok :: bool
  pthread_sigmask_ok :: bool
  init_seize :: int
  task_list_before :: "int list option"
  task_list_after :: "int list option"
  seize :: "nat \<Rightarrow> int \<Rightarrow> int"
  now :: "nat \<Rightarrow> int"
  send_ok :: bool

datatype AttachEffect = Seize int | SleepFor int

definition InitSetupSignals :: "Setup \<Rightarrow> bool" where
  "InitSetupSignals su =
     (if \<not> sigemptyset_ok su then False
      else if \<not> sigaddset_ok su then False
      else if \<not> pthread_sigmask_ok su then False
      else True)"

text \<open>
  One pass of the \<^verbatim>\<open>for (int task : tasks)\<close> loop: \<open>None\<close> is the \<^verbatim>\<open>return false\<close> of an
  errno other than EPERM and ESRCH.
\<close>

fun InitPtraceAttach_round ::
  "Setup \<Rightarrow> nat \<Rightarrow> int list \<Rightarrow> int list \<Rightarrow> int list \<Rightarrow> AttachEffect list
   \<Rightarrow> (int list \<times> int list) option \<times> AttachEffect list" where
  "InitPtraceAttach_round su retries [] tasks_left tasks_attached log =
     (Some (tasks_left, tasks_attached), log)"
| "InitPtraceAttach_round su retries (task # tasks) tasks_left tasks_attached log =
     (let ret = seize su retries task;
          log1 = log @ [Seize task]
      in if ret \<noteq> 0 then
           (if ret = EPERM then
              InitPtraceAttach_round su retries tasks (List.insert task tasks_left)
                tasks_attached log1
            else if ret = ESRCH then
              InitPtraceAttach_round su retries tasks tasks_left tasks_attached log1
            else (None, log1))
         else
           InitPtraceAttach_round su retries tasks tasks_left
             (List.insert task tasks_attached) log1)"

text \<open>
  The \<^verbatim>\<open>while (!tasks.empty())\<close> loop. \<open>calls\<close> counts the readings of the clock taken so
  far; \<open>kInitialRetry\<close> is 1 ms and \<open>kMaxRetry\<close> 20 ms.
\<close>

fun InitPtraceAttach_loop ::
  "Setup \<Rightarrow> nat \<Rightarrow> nat \<Rightarrow> nat \<Rightarrow> int \<Rightarrow> int list \<Rightarrow> int list \<Rightarrow> AttachEffect list
   \<Rightarrow> (bool \<times> int list \<times> AttachEffect list) option" where
  "InitPtraceAttach_loop su 0 retries calls deadline tasks tasks_attached log = None"
| "InitPtraceAttach_loop su (Suc fuel) retries calls deadline tasks tasks_attached log =
     (if tasks = [] then Some (True, tasks_attached, log)
      else
        case InitPtraceAttach_round su retries tasks [] tasks_attached log of
          (None, log1) \<Rightarrow> Some (False, tasks_attached, log1)
        | (Some (tasks_left, attached1), log1) \<Rightarrow>
            if tasks_left \<noteq> [] then
              (if now su calls < deadline then Some (False, attached1, log1)
               else
                 let retry_interval = 1 * 2 ^ (min 10 retries);
                     pause = min retry_interval (min 20 (deadline - now su (calls + 1)))
                 in InitPtraceAttach_loop su fuel (retries + 1) (calls + 2) deadline tasks_left
                      attached1 (log1 @ [SleepFor pause]))
            else
              InitPtraceAttach_loop su fuel retries calls deadline tasks_left attached1 log1)"

definition InitPtraceAttach :: "Config \<Rightarrow> Setup \<Rightarrow> nat \<Rightarrow> (bool \<times> AttachEffect list) option" where
  "InitPtraceAttach cfg su fuel =
     (if init_pid cfg > 0 \<and> init_seize su \<noteq> 0 then Some (False, [Seize (init_pid cfg)])
      else
        let log0 = (if init_pid cfg > 0 then [Seize (init_pid cfg)] else [])
        in case task_list_before su of
             None \<Rightarrow> Some (False, log0)
           | Some tasks \<Rightarrow>
               if main_pid cfg \<notin> set tasks then Some (False, log0)
               else
                 (case InitPtraceAttach_loop su fuel 0 1 (now su 0 + 2000) (remdups tasks) [] log0 of
                    None \<Rightarrow> None
                  | Some (attached_all, tasks_attached, log1) \<Rightarrow>
                      if \<not> attached_all then Some (False, log1)
                      else
                        (case task_list_after su of
                           None \<Rightarrow> Some (False, log1)
                         | Some tasks_now \<Rightarrow>
                             if set tasks_attached \<noteq> set tasks_now then Some (False, log1)
                             else if \<not> send_ok su then Some (False, log1)
                             else Some (True, log1))))"

subsection \<open>The event loop: Run\<close>

datatype LoopControl = Continue | Break

text \<open>The locals of \<^verbatim>\<open>Run\<close> next to the monitor itself.\<close>

record RunState =
  monitor :: PtraceMonitor
  pid_waiter :: PidWaiter
  sandboxee_exited :: bool
  status_var :: int

text \<open>The four checks at the head of an iteration; \<open>False\<close> is the \<^verbatim>\<open>break\<close>.\<close>

definition Run_check_deadline :: "Config \<Rightarrow> World \<Rightarrow> PtraceMonitor \<Rightarrow> bool \<times> PtraceMonitor" where
  "Run_check_deadline cfg w s =
     (if deadline_millis w \<noteq> 0 \<and> now_millis w \<ge> deadline_millis w then
        KillSandboxee cfg w OnTimeout (s\<lparr>timed_out := True\<rparr>)
      else (True, s))"

definition Run_check_dump_stack :: "Config \<Rightarrow> World \<Rightarrow> PtraceMonitor \<Rightarrow> bool \<times> PtraceMonitor" where
  "Run_check_dump_stack cfg w s =
     (if dump_stack_requested w then InterruptSandboxee cfg w (s\<lparr>should_dump_stack := True\<rparr>)
      else (True, s))"

definition Run_check_external_kill :: "Config \<Rightarrow> World \<Rightarrow> PtraceMonitor \<Rightarrow> bool \<times> PtraceMonitor" where
  "Run_check_external_kill cfg w s =
     (if external_kill_requested w then
        KillSandboxee cfg w OnExternalKill (s\<lparr>external_kill := True\<rparr>)
      else (True, s))"

definition Run_check_network :: "Config \<Rightarrow> World \<Rightarrow> PtraceMonitor \<Rightarrow> bool \<times> PtraceMonitor" where
  "Run_check_network cfg w s =
     (if has_network_proxy_server cfg \<and> violation_occurred w \<and> \<not> network_violation_seen s then
        KillSandboxee cfg w OnNetworkViolation (s\<lparr>network_violation_seen := True\<rparr>)
      else (True, s))"

definition Run_checks :: "Config \<Rightarrow> World \<Rightarrow> PtraceMonitor \<Rightarrow> bool \<times> PtraceMonitor" where
  "Run_checks cfg w s =
     (let r1 = Run_check_deadline cfg w s in
      if \<not> fst r1 then r1
      else
        let r2 = Run_check_dump_stack cfg w (snd r1) in
        if \<not> fst r2 then r2
        else
          let r3 = Run_check_external_kill cfg w (snd r2) in
          if \<not> fst r3 then r3
          else Run_check_network cfg w (snd r3))"

text \<open>The choice of the final status when \<^verbatim>\<open>waitpid\<close> reports the main PID signaled.\<close>

definition Run_signaled_status :: "Config \<Rightarrow> World \<Rightarrow> int \<Rightarrow> PtraceMonitor \<Rightarrow> PtraceMonitor" where
  "Run_signaled_status cfg w status s =
     (if network_violation_seen s then
        (let s' = SetExitStatusCode VIOLATION (reason_value cfg VIOLATION_NETWORK) s
         in s'\<lparr>result := (result s')\<lparr>network_violation := violation_msg w\<rparr>\<rparr>)
      else if external_kill s then SetExitStatusCode EXTERNAL_KILL 0 s
      else if timed_out s then SetExitStatusCode TIMEOUT 0 s
      else SetExitStatusCode SIGNALED (WTERMSIG status) s)"

text \<open>The dispatch on the status of a PID that \<^verbatim>\<open>Wait\<close> returned.\<close>

definition Run_dispatch ::
  "Config \<Rightarrow> World \<Rightarrow> int \<Rightarrow> int \<Rightarrow> PtraceMonitor \<Rightarrow> bool \<Rightarrow> Crash + PtraceMonitor \<times> bool" where
  "Run_dispatch cfg w ret status s exited =
     (if WIFEXITED status then
        (if ret = main_pid cfg then
           Inr (if IsActivelyMonitoring s then SetExitStatusCode OK (WEXITSTATUS status) s
                else SetExitStatusCode SETUP_ERROR (reason_value cfg FAILED_MONITOR) s,
                True)
         else Inr (s, exited))
      else if WIFSIGNALED status then
        (if ret = main_pid cfg then Inr (Run_signaled_status cfg w status s, True)
         else Inr (s, exited))
      else if WIFSTOPPED status then
        (case StateProcessStopped cfg w ret status s of
           Inl crash \<Rightarrow> Inl crash
         | Inr s' \<Rightarrow> Inr (s', exited))
      else Inr (s, exited))"

definition Run_iteration ::
  "Config \<Rightarrow> World \<Rightarrow> RunState \<Rightarrow> (Crash + LoopControl \<times> RunState) option" where
  "Run_iteration cfg w rs =
     (let checked = Run_checks cfg w (monitor rs) in
      if \<not> fst checked then Some (Inr (Break, rs\<lparr>monitor := snd checked\<rparr>))
      else
        case Wait (pid_waiter rs) (waitpid_responses w) of
          None \<Rightarrow> None
        | Some (r, pw, rest, calls) \<Rightarrow>
            let s = snd checked;
                status = (case wr_status r of Some v \<Rightarrow> v | None \<Rightarrow> status_var rs);
                rs1 = rs\<lparr>pid_waiter := pw, status_var := status\<rparr>
            in if wr_ret r = 0 then Some (Inr (Continue, rs1\<lparr>monitor := emit Sigtimedwait s\<rparr>))
               else if wr_ret r = - 1 then
                 (if wr_errno r = Some ECHILD then
                    Some (Inr (Continue,
                      rs1\<lparr>monitor :=
                            SetExitStatusCode INTERNAL_ERROR (reason_value cfg FAILED_CHILD) s\<rparr>))
                  else Some (Inr (Continue, rs1\<lparr>monitor := s\<rparr>)))
               else
                 (case Run_dispatch cfg w (wr_ret r) status s (sandboxee_exited rs) of
                    Inl crash \<Rightarrow> Some (Inl crash)
                  | Inr (s', exited) \<Rightarrow>
                      Some (Inr (Continue, rs1\<lparr>monitor := s', sandboxee_exited := exited\<rparr>))))"

text \<open>
  \<^verbatim>\<open>while (result().final_status() == Result::UNSET)\<close>: one world per iteration. \<open>None\<close>
  is a loop that is still running when the worlds are used up.
\<close>

fun Run_loop ::
  "Config \<Rightarrow> World list \<Rightarrow> RunState \<Rightarrow> (Crash + RunState \<times> World list) option" where
  "Run_loop cfg [] rs =
     (if final_status (result (monitor rs)) \<noteq> UNSET then Some (Inr (rs, [])) else None)"
| "Run_loop cfg (w # ws) rs =
     (if final_status (result (monitor rs)) \<noteq> UNSET then Some (Inr (rs, w # ws))
      else
        case Run_iteration cfg w rs of
          None \<Rightarrow> None
        | Some (Inl crash) \<Rightarrow> Some (Inl crash)
        | Some (Inr (Break, rs')) \<Rightarrow> Some (Inr (rs', ws))
        | Some (Inr (Continue, rs')) \<Rightarrow> Run_loop cfg ws rs')"

definition LogStackTraceOfPid :: "Config \<Rightarrow> World \<Rightarrow> int \<Rightarrow> PtraceMonitor \<Rightarrow> PtraceMonitor" where
  "LogStackTraceOfPid cfg w pid s =
     (if \<not> StackTraceCollectionPossible cfg then s
      else
        let s1 = emit (Regs_Fetch pid) s
        in case Fetch w pid of
             FetchOk fetched \<Rightarrow> GetAndLogStackTrace w pid s1
           | FetchNotFound \<Rightarrow> s1
           | FetchError \<Rightarrow> s1)"

text \<open>
  The \<^verbatim>\<open>for (;;)\<close> loop that waits for the sandboxee to go, until \<open>deadline\<close>: the body
  after the test of the deadline, and the loop.
\<close>

definition Run_shutdown_iteration ::
  "Config \<Rightarrow> bool \<Rightarrow> World \<Rightarrow> RunState \<Rightarrow> (LoopControl \<times> RunState) option" where
  "Run_shutdown_iteration cfg log_stack_traces w rs =
     (case Wait (pid_waiter rs) (waitpid_responses w) of
        None \<Rightarrow> None
      | Some (r, pw, rest, calls) \<Rightarrow>
          let ret = wr_ret r;
              status = (case wr_status r of Some v \<Rightarrow> v | None \<Rightarrow> status_var rs);
              rs1 = rs\<lparr>pid_waiter := pw, status_var := status\<rparr>;
              s = monitor rs
          in if ret = - 1 then Some (Break, rs1)
             else if \<not> log_stack_traces \<and> ret = main_pid cfg
                     \<and> (WIFSIGNALED status \<or> WIFEXITED status) then Some (Break, rs1)
             else if ret = 0 then Some (Continue, rs1\<lparr>monitor := emit Sigtimedwait s\<rparr>)
             else
               let s1 = (if WIFSTOPPED status \<and> log_stack_traces
                         then LogStackTraceOfPid cfg w ret s else s)
               in if WIFSTOPPED status \<and> WPTRACEEVENT status = PTRACE_EVENT_EXIT then
                    Some (Continue, rs1\<lparr>monitor := ContinueProcess ret 0 s1\<rparr>)
                  else
                    Some (Continue,
                      rs1\<lparr>monitor := (if \<not> log_stack_traces
                                        then emit (Kill (main_pid cfg) SIGKILL) s1 else s1)\<rparr>))"

fun Run_shutdown_loop ::
  "Config \<Rightarrow> bool \<Rightarrow> int \<Rightarrow> World list \<Rightarrow> RunState \<Rightarrow> RunState option" where
  "Run_shutdown_loop cfg log_stack_traces deadline [] rs = None"
| "Run_shutdown_loop cfg log_stack_traces deadline (w # ws) rs =
     (if now_millis w \<ge> deadline then Some rs
      else
        case Run_shutdown_iteration cfg log_stack_traces w rs of
          None \<Rightarrow> None
        | Some (Break, rs') \<Rightarrow> Some rs'
        | Some (Continue, rs') \<Rightarrow> Run_shutdown_loop cfg log_stack_traces deadline ws rs')"

definition Run_shutdown :: "Config \<Rightarrow> World list \<Rightarrow> RunState \<Rightarrow> RunState option" where
  "Run_shutdown cfg ws rs =
     (if sandboxee_exited rs then Some rs
      else
        case ws of
          [] \<Rightarrow> None
        | w # ws' \<Rightarrow>
            let s = monitor rs;
                log_stack_traces =
                  (final_status (result s) \<noteq> OK \<and> sandbox2_log_all_stack_traces cfg);
                s1 = (if \<not> log_stack_traces then emit (Kill (main_pid cfg) SIGKILL) s else s);
                deadline =
                  (if log_stack_traces
                   then now_millis w + sandbox2_stack_traces_collection_timeout cfg
                   else now_millis w + 200)
            in Run_shutdown_loop cfg log_stack_traces deadline ws (rs\<lparr>monitor := s1\<rparr>))"

text \<open>
  \<^verbatim>\<open>Run\<close>, from the monitor as constructed. The local \<^verbatim>\<open>status\<close> starts uninitialised
  and is read only after \<^verbatim>\<open>Wait\<close> has stored into it; it starts as 0 here.
\<close>

definition Run ::
  "Config \<Rightarrow> Setup \<Rightarrow> nat \<Rightarrow> World list \<Rightarrow> PtraceMonitor \<Rightarrow> (Crash + PtraceMonitor) option" where
  "Run cfg su fuel ws s0 =
     (if \<not> InitSetupSignals su then
        Some (Inr (SetExitStatusCode SETUP_ERROR (reason_value cfg FAILED_SIGNALS) s0))
      else
        case InitPtraceAttach cfg su fuel of
          None \<Rightarrow> None
        | Some (attached, log) \<Rightarrow>
            if \<not> attached then
              Some (Inr (SetExitStatusCode SETUP_ERROR (reason_value cfg FAILED_PTRACE) s0))
            else
              (case Run_loop cfg ws
                      \<lparr>monitor = s0, pid_waiter = PidWaiter_init (main_pid cfg),
                       sandboxee_exited = False, status_var = 0\<rparr> of
                 None \<Rightarrow> None
               | Some (Inl crash) \<Rightarrow> Some (Inl crash)
               | Some (Inr (rs, ws')) \<Rightarrow>
                   (case Run_shutdown cfg ws' rs of
                      None \<Rightarrow> None
                    | Some rs' \<Rightarrow> Some (Inr (monitor rs')))))"

text \<open>\<^verbatim>\<open>Join\<close> once the monitor thread has ended: the \<^verbatim>\<open>CHECK\<close> on the final status.\<close>

definition Join :: "PtraceMonitor \<Rightarrow> Crash + Result" where
  "Join s = (if final_status (result s) \<noteq> UNSET then Inr (result s) else Inl CHECK_FAILED)"

subsection \<open>Notions used to state the properties\<close>

text \<open>The part of the Result that \<^verbatim>\<open>SetExitStatusCode\<close> writes.\<close>

definition final_of :: "PtraceMonitor \<Rightarrow> StatusEnum \<times> int" where
  "final_of s = (final_status (result s), reason_code (result s))"

text \<open>
  The spec's priority for a main PID that died by a signal, in the spec's words: network
  violation, then external kill, then timeout, then signaled; the first true flag wins.
\<close>

definition spec_priority_status ::
  "int \<Rightarrow> bool \<Rightarrow> bool \<Rightarrow> bool \<Rightarrow> int \<Rightarrow> StatusEnum \<times> int" where
  "spec_priority_status violation_network_code network ext_kill timeout signo =
     (if network then (VIOLATION, violation_network_code)
      else if ext_kill then (EXTERNAL_KILL, 0)
      else if timeout then (TIMEOUT, 0)
      else (SIGNALED, signo))"


text \<open>The \<open>(pid, status)\<close> pair that \<^verbatim>\<open>RefillStatuses\<close> queues for an answer of the kernel.\<close>

abbreviation child_of :: "int \<times> int \<times> int \<Rightarrow> int \<times> int" where
  "child_of a \<equiv> (fst a, fst (snd a))"

subsection \<open>A concrete monitor, for the examples\<close>

text \<open>
  The state the constructor leaves: the result unset, no syscall in progress, no flag
  raised; \<^verbatim>\<open>wait_for_execve_\<close> is the executor's \<^verbatim>\<open>enable_sandboxing_pre_execve_\<close>.
\<close>

definition unset_result :: Result where
  "unset_result =
     \<lparr>final_status = UNSET, reason_code = 0, result_regs = None, result_syscall = None,
      prog_name = [], proc_maps = [], stack_trace = [], network_violation = []\<rparr>"

definition PtraceMonitor_init :: "bool \<Rightarrow> PtraceMonitor" where
  "PtraceMonitor_init enable_sandboxing_pre_execve =
     \<lparr>result = unset_result, wait_for_execve = enable_sandboxing_pre_execve,
      syscalls_in_progress = (\<lambda>p. None), timed_out = False, external_kill = False,
      network_violation_seen = False, should_dump_stack = False, effects = []\<rparr>"

text \<open>
  An x86-64 host with main PID 100: the architecture tags of config.h, the syscall numbers
  of the x86-64 table and the enumerator values of result.h.
\<close>

definition example_reason_value :: "ReasonCodeEnum \<Rightarrow> int" where
  "example_reason_value r =
     (case r of
        FAILED_SIGNALS \<Rightarrow> 2 | FAILED_PTRACE \<Rightarrow> 8 | FAILED_FETCH \<Rightarrow> 14
      | FAILED_GETEVENT \<Rightarrow> 15 | FAILED_MONITOR \<Rightarrow> 16 | FAILED_KILL \<Rightarrow> 17
      | FAILED_INTERRUPT \<Rightarrow> 18 | FAILED_CHILD \<Rightarrow> 19 | FAILED_INSPECT \<Rightarrow> 20
      | VIOLATION_NETWORK \<Rightarrow> 0x10000000)"

definition example_config :: Config where
  "example_config =
     \<lparr>main_pid = 100, init_pid = 0, log_file = False,
      sandbox2_danger_danger_permit_all = False, sandbox2_log_all_stack_traces = False,
      sandbox2_stack_traces_collection_timeout = 1000, collect_stacktrace_on_exit = False,
      ShouldCollectStackTrace = (\<lambda>st. False), StackTraceCollectionPossible = False,
      libunwind_sbox_for_pid = 0, has_namespace = False, has_network_proxy_server = False,
      GetHostArch = 0xCAF1, kUnknown = 0xCAF0, kMax = 0xCAF5,
      NR_execve = 59, NR_execveat = 322, NR_clone = 56, NR_clone3 = Some 435,
      NR_fork = Some 57, NR_vfork = Some 58, reason_value = example_reason_value\<rparr>"

definition example_regs :: Regs where
  "example_regs =
     \<lparr>regs_pid = 0, regs_nr = 1, regs_args = [1, 0, 0, 0, 0, 0], regs_sp = 0, regs_ip = 0,
      regs_ret = 7\<rparr>"

text \<open>
  A quiet world: no deadline, no request from other threads, every system call succeeds,
  registers are readable, and Notify answers with the given action.
\<close>

definition example_world :: "TraceAction \<Rightarrow> (int \<times> int \<times> int) list \<Rightarrow> World" where
  "example_world action answers =
     \<lparr>now_millis = 0, deadline_millis = 0, dump_stack_requested = False,
      external_kill_requested = False, violation_occurred = False, violation_msg = [],
      kill_ok = (\<lambda>site. True), interrupt_ok = True, waitpid_responses = answers,
      PTRACE_GETEVENTMSG = (\<lambda>p. PtraceOk 0), Fetch = (\<lambda>p. FetchOk example_regs),
      EventSyscallTrace = (\<lambda>sc. action), fprintf_ok = True,
      GetStackTrace = (\<lambda>p. None), GetProgName = (\<lambda>p. []), ReadProcMaps = (\<lambda>p. [])\<rparr>"

text \<open>A set-up in which every call succeeds and the main PID has one task.\<close>

definition example_setup :: Setup where
  "example_setup =
     \<lparr>sigemptyset_ok = True, sigaddset_ok = True, pthread_sigmask_ok = True, init_seize = 0,
      task_list_before = Some [100], task_list_after = Some [100],
      seize = (\<lambda>round task. 0), now = (\<lambda>k. 0), send_ok = True\<rparr>"

section \<open>Properties of the monitor\<close>

subsection \<open>What the building blocks leave alone\<close>

lemma WIFSIGNALED_not_WIFEXITED: "WIFSIGNALED status \<Longrightarrow> \<not> WIFEXITED status"
  by (auto simp: WIFSIGNALED_def WIFEXITED_def WTERMSIG_def signed_char_def)

lemma final_of_emit [simp]: "final_of (emit e s) = final_of s"
  by (simp add: final_of_def emit_def)

lemma final_of_ContinueProcess [simp]: "final_of (ContinueProcess p sig s) = final_of s"
  by (simp add: ContinueProcess_def)

lemma final_of_table_erase [simp]: "final_of (table_erase p s) = final_of s"
  by (simp add: final_of_def table_erase_def)

lemma final_of_SetAdditionalResultInfo [simp]:
  "final_of (SetAdditionalResultInfo cfg w regs s) = final_of s"
  by (simp add: SetAdditionalResultInfo_def final_of_def Let_def GetAndLogStackTrace_def emit_def
      split: option.splits)

lemma final_of_violation:
  "final_status (result s) = UNSET \<Longrightarrow>
   final_of (ActionProcessSyscallViolation cfg w regs syscall vt s) = (VIOLATION, sc_nr syscall)"
  by (simp add: ActionProcessSyscallViolation_def Let_def)
     (simp add: final_of_def SetExitStatusCode_def emit_def)

lemma final_of_Run_signaled_status:
  "final_status (result s) = UNSET \<Longrightarrow>
   final_of (Run_signaled_status cfg w status s) =
     spec_priority_status (reason_value cfg VIOLATION_NETWORK) (network_violation_seen s)
       (external_kill s) (timed_out s) (WTERMSIG status)"
  by (simp add: Run_signaled_status_def spec_priority_status_def final_of_def
      SetExitStatusCode_def Let_def)

lemma final_of_main_status:
  "final_status (result s) = UNSET \<Longrightarrow> \<not> WIFEXITED event_msg \<Longrightarrow>
   final_of (EventPtraceExit_main_status cfg w event_msg s) =
     spec_priority_status (reason_value cfg VIOLATION_NETWORK) (network_violation_seen s)
       (external_kill s) (timed_out s) (WTERMSIG event_msg)"
  by (simp add: EventPtraceExit_main_status_def spec_priority_status_def final_of_def
      SetExitStatusCode_def Let_def)

lemma effects_SetAdditionalResultInfo:
  "effects (SetAdditionalResultInfo cfg w regs s) =
     effects s @ (if ShouldCollectStackTrace cfg (final_status (result s))
                  then [StackTrace_Get (regs_pid regs)] else [])"
  by (simp add: SetAdditionalResultInfo_def Let_def GetAndLogStackTrace_def emit_def
      split: option.splits)

lemma table_SetAdditionalResultInfo [simp]:
  "syscalls_in_progress (SetAdditionalResultInfo cfg w regs s) = syscalls_in_progress s"
  by (simp add: SetAdditionalResultInfo_def Let_def GetAndLogStackTrace_def emit_def
      split: option.splits)

lemma table_SetExitStatusCode [simp]:
  "syscalls_in_progress (SetExitStatusCode st c s) = syscalls_in_progress s"
  by (simp add: SetExitStatusCode_def)

lemma effects_SetExitStatusCode [simp]:
  "effects (SetExitStatusCode st c s) = effects s"
  by (simp add: SetExitStatusCode_def)

lemma table_emit [simp]: "syscalls_in_progress (emit e s) = syscalls_in_progress s"
  by (simp add: emit_def)

lemma effects_emit [simp]: "effects (emit e s) = effects s @ [e]"
  by (simp add: emit_def)

lemma table_table_erase [simp]:
  "syscalls_in_progress (table_erase p s) = (syscalls_in_progress s)(p := None)"
  by (simp add: table_erase_def)

lemma effects_table_erase [simp]: "effects (table_erase p s) = effects s"
  by (simp add: table_erase_def)

lemma table_table_store [simp]:
  "syscalls_in_progress (table_store p sc s) = (syscalls_in_progress s)(p \<mapsto> sc)"
  by (simp add: table_store_def)

lemma effects_table_store [simp]: "effects (table_store p sc s) = effects s"
  by (simp add: table_store_def)

lemma effects_violation:
  "effects (ActionProcessSyscallViolation cfg w regs syscall vt s) =
     effects s @ [Notify_EventSyscallViolation syscall vt]
       @ (if ShouldCollectStackTrace cfg
               (final_status (result (SetExitStatusCode VIOLATION (sc_nr syscall) s)))
          then [StackTrace_Get (regs_pid regs)] else [])
       @ [Regs_SkipSyscallReturnValue (regs_pid regs) (- ENOSYS)]"
  by (simp add: ActionProcessSyscallViolation_def Let_def effects_SetAdditionalResultInfo
      emit_def SetExitStatusCode_def)

lemma table_violation [simp]:
  "syscalls_in_progress (ActionProcessSyscallViolation cfg w regs syscall vt s) =
     syscalls_in_progress s"
  by (simp add: ActionProcessSyscallViolation_def Let_def)






lemma effects_main_status [simp]:
  "effects (EventPtraceExit_main_status cfg w m s) = effects s"
  by (simp add: EventPtraceExit_main_status_def Let_def)

lemma table_main_status [simp]:
  "syscalls_in_progress (EventPtraceExit_main_status cfg w m s) = syscalls_in_progress s"
  by (simp add: EventPtraceExit_main_status_def Let_def)



lemma table_erase_idem [simp]: "table_erase pid (table_erase pid s) = table_erase pid s"
  by (simp add: table_erase_def)


lemmas ptrace_event_defs =
  PTRACE_EVENT_FORK_def PTRACE_EVENT_VFORK_def PTRACE_EVENT_CLONE_def
  PTRACE_EVENT_VFORK_DONE_def PTRACE_EVENT_EXEC_def PTRACE_EVENT_EXIT_def
  PTRACE_EVENT_STOP_def PTRACE_EVENT_SECCOMP_def

lemma dump_block:
  "syscalls_in_progress (StateProcessStopped_dump_stack cfg w pid s) = syscalls_in_progress s
   \<and> (\<exists>zs. effects (StateProcessStopped_dump_stack cfg w pid s) = effects s @ zs)"
  by (auto simp: StateProcessStopped_dump_stack_def Let_def split: FetchResult.splits)


subsection \<open>The event loop\<close>

lemma and_7f_of_ff: "(status::int) AND 0xff = 0x7f \<Longrightarrow> status AND 0x7f = 0x7f"
proof -
  assume a: "status AND 0xff = 0x7f"
  have "status AND 0x7f = status AND (0xff AND 0x7f)" by simp
  also have "\<dots> = (status AND 0xff) AND 0x7f" by (simp only: and.assoc)
  also have "\<dots> = 0x7f" using a by simp
  finally show ?thesis .
qed

lemma WIFSTOPPED_not_dead: "WIFSTOPPED status \<Longrightarrow> \<not> WIFEXITED status \<and> \<not> WIFSIGNALED status"
  by (auto simp: WIFSTOPPED_def WIFEXITED_def WIFSIGNALED_def WTERMSIG_def signed_char_def
      dest!: and_7f_of_ff)

lemma unset_SetExitStatusCode [simp]:
  "final_status (result (SetExitStatusCode st c s)) = UNSET \<longleftrightarrow>
   final_status (result s) = UNSET \<and> st = UNSET"
  by (simp add: SetExitStatusCode_def)

lemma SetExitStatusCode_dropped:
  "final_status (result s) \<noteq> UNSET \<Longrightarrow> SetExitStatusCode st c s = s"
  by (simp add: SetExitStatusCode_def)

lemma KillSandboxee_result:
  "fst (KillSandboxee cfg w site s) \<Longrightarrow> result (snd (KillSandboxee cfg w site s)) = result s"
  "\<not> fst (KillSandboxee cfg w site s) \<Longrightarrow>
     final_status (result (snd (KillSandboxee cfg w site s))) \<noteq> UNSET"
  by (simp_all add: KillSandboxee_def Let_def emit_def SetExitStatusCode_def split: if_splits)

lemma InterruptSandboxee_result:
  "fst (InterruptSandboxee cfg w s) \<Longrightarrow> result (snd (InterruptSandboxee cfg w s)) = result s"
  "\<not> fst (InterruptSandboxee cfg w s) \<Longrightarrow>
     final_status (result (snd (InterruptSandboxee cfg w s))) \<noteq> UNSET"
  by (simp_all add: InterruptSandboxee_def Let_def emit_def SetExitStatusCode_def split: if_splits)

lemma Run_check_deadline_result:
  "fst (Run_check_deadline cfg w s) \<Longrightarrow> result (snd (Run_check_deadline cfg w s)) = result s"
  "\<not> fst (Run_check_deadline cfg w s) \<Longrightarrow>
     final_status (result (snd (Run_check_deadline cfg w s))) \<noteq> UNSET"
  using KillSandboxee_result [of cfg w OnTimeout "s\<lparr>timed_out := True\<rparr>"]
  by (auto simp: Run_check_deadline_def split: if_splits)

lemma Run_check_dump_stack_result:
  "fst (Run_check_dump_stack cfg w s) \<Longrightarrow> result (snd (Run_check_dump_stack cfg w s)) = result s"
  "\<not> fst (Run_check_dump_stack cfg w s) \<Longrightarrow>
     final_status (result (snd (Run_check_dump_stack cfg w s))) \<noteq> UNSET"
  using InterruptSandboxee_result [of cfg w "s\<lparr>should_dump_stack := True\<rparr>"]
  by (auto simp: Run_check_dump_stack_def split: if_splits)

lemma Run_check_external_kill_result:
  "fst (Run_check_external_kill cfg w s) \<Longrightarrow>
     result (snd (Run_check_external_kill cfg w s)) = result s"
  "\<not> fst (Run_check_external_kill cfg w s) \<Longrightarrow>
     final_status (result (snd (Run_check_external_kill cfg w s))) \<noteq> UNSET"
  using KillSandboxee_result [of cfg w OnExternalKill "s\<lparr>external_kill := True\<rparr>"]
  by (auto simp: Run_check_external_kill_def split: if_splits)

lemma Run_check_network_result:
  "fst (Run_check_network cfg w s) \<Longrightarrow> result (snd (Run_check_network cfg w s)) = result s"
  "\<not> fst (Run_check_network cfg w s) \<Longrightarrow>
     final_status (result (snd (Run_check_network cfg w s))) \<noteq> UNSET"
  using KillSandboxee_result [of cfg w OnNetworkViolation "s\<lparr>network_violation_seen := True\<rparr>"]
  by (auto simp: Run_check_network_def split: if_splits)

lemma Run_checks_result:
  "fst (Run_checks cfg w s) \<Longrightarrow> result (snd (Run_checks cfg w s)) = result s"
  "\<not> fst (Run_checks cfg w s) \<Longrightarrow> final_status (result (snd (Run_checks cfg w s))) \<noteq> UNSET"
proof -
  let ?r1 = "Run_check_deadline cfg w s"
  let ?r2 = "Run_check_dump_stack cfg w (snd ?r1)"
  let ?r3 = "Run_check_external_kill cfg w (snd ?r2)"
  let ?r4 = "Run_check_network cfg w (snd ?r3)"
  have eq: "Run_checks cfg w s =
      (if \<not> fst ?r1 then ?r1 else if \<not> fst ?r2 then ?r2 else if \<not> fst ?r3 then ?r3 else ?r4)"
    by (simp add: Run_checks_def Let_def)
  show "fst (Run_checks cfg w s) \<Longrightarrow> result (snd (Run_checks cfg w s)) = result s"
    unfolding eq
    using Run_check_deadline_result(1) [of cfg w s]
      Run_check_dump_stack_result(1) [of cfg w "snd ?r1"]
      Run_check_external_kill_result(1) [of cfg w "snd ?r2"]
      Run_check_network_result(1) [of cfg w "snd ?r3"]
    by (simp split: if_splits)
  show "\<not> fst (Run_checks cfg w s) \<Longrightarrow> final_status (result (snd (Run_checks cfg w s))) \<noteq> UNSET"
    unfolding eq
    using Run_check_deadline_result(2) [of cfg w s]
      Run_check_dump_stack_result(2) [of cfg w "snd ?r1"]
      Run_check_external_kill_result(2) [of cfg w "snd ?r2"]
      Run_check_network_result(2) [of cfg w "snd ?r3"]
    by (simp split: if_splits)
qed

lemma Run_iteration_Break:
  assumes "Run_iteration cfg w rs = Some (Inr (Break, rs1))"
  shows "\<not> fst (Run_checks cfg w (monitor rs))"
    and "rs1 = rs\<lparr>monitor := snd (Run_checks cfg w (monitor rs))\<rparr>"
proof -
  have "\<not> fst (Run_checks cfg w (monitor rs))
        \<and> rs1 = rs\<lparr>monitor := snd (Run_checks cfg w (monitor rs))\<rparr>"
  proof (cases "fst (Run_checks cfg w (monitor rs))")
    case False
    with assms show ?thesis by (simp add: Run_iteration_def Let_def)
  next
    case True
    show ?thesis
    proof (cases "Wait (pid_waiter rs) (waitpid_responses w)")
      case None
      with assms True show ?thesis by (simp add: Run_iteration_def Let_def)
    next
      case (Some a)
      obtain r pw rest calls where a: "a = (r, pw, rest, calls)" by (cases a)
      from assms True Some a have False
        by (simp add: Run_iteration_def Let_def split: if_splits sum.splits prod.splits)
      then show ?thesis ..
    qed
  qed
  then show "\<not> fst (Run_checks cfg w (monitor rs))"
    and "rs1 = rs\<lparr>monitor := snd (Run_checks cfg w (monitor rs))\<rparr>" by simp_all
qed

lemma Run_loop_final:
  "Run_loop cfg ws rs = Some (Inr (rs', ws')) \<Longrightarrow> final_status (result (monitor rs')) \<noteq> UNSET"
proof (induction cfg ws rs rule: Run_loop.induct)
  case (1 cfg rs)
  then show ?case by (simp split: if_splits)
next
  case (2 cfg w ws rs)
  show ?case
  proof (cases "final_status (result (monitor rs)) \<noteq> UNSET")
    case True
    with 2 show ?thesis by simp
  next
    case False
    then have unset: "final_status (result (monitor rs)) = UNSET" by simp
    show ?thesis
    proof (cases "Run_iteration cfg w rs")
      case None
      with "2.prems" unset show ?thesis by simp
    next
      case (Some r)
      show ?thesis
      proof (cases r)
        case (Inl crash)
        with "2.prems" unset Some show ?thesis by simp
      next
        case (Inr p)
        obtain ctl rs1 where p: "p = (ctl, rs1)" by (cases p)
        show ?thesis
        proof (cases ctl)
          case Continue
          with "2.prems" unset Some Inr p have "Run_loop cfg ws rs1 = Some (Inr (rs', ws'))"
            by simp
          with "2.IH" unset Some Inr p Continue show ?thesis by simp
        next
          case Break
          with "2.prems" unset Some Inr p have eq: "rs' = rs1" by simp
          from Some Inr p Break have it: "Run_iteration cfg w rs = Some (Inr (Break, rs1))"
            by simp
          from Run_iteration_Break [OF it] eq Run_checks_result(2) [of cfg w "monitor rs"]
          show ?thesis by simp
        qed
      qed
    qed
  qed
qed

lemma result_emit [simp]: "result (emit e s) = result s"
  by (simp add: emit_def)

lemma result_LogStackTraceOfPid [simp]: "result (LogStackTraceOfPid cfg w pid s) = result s"
  by (simp add: LogStackTraceOfPid_def Let_def GetAndLogStackTrace_def split: FetchResult.splits)

lemma Run_shutdown_iteration_result:
  assumes "Run_shutdown_iteration cfg l w rs = Some (ctl, rs')"
  shows "result (monitor rs') = result (monitor rs)"
proof (cases "Wait (pid_waiter rs) (waitpid_responses w)")
  case None
  with assms show ?thesis by (simp add: Run_shutdown_iteration_def)
next
  case (Some a)
  obtain r pw rest calls where a: "a = (r, pw, rest, calls)" by (cases a)
  from assms Some a show ?thesis
    by (auto simp: Run_shutdown_iteration_def Let_def ContinueProcess_def split: if_splits)
qed

lemma Run_shutdown_loop_result:
  "Run_shutdown_loop cfg l d ws rs = Some rs' \<Longrightarrow> result (monitor rs') = result (monitor rs)"
proof (induction ws arbitrary: rs)
  case Nil
  then show ?case by simp
next
  case (Cons w ws)
  show ?case
  proof (cases "now_millis w \<ge> d")
    case True
    with Cons.prems show ?thesis by simp
  next
    case False
    show ?thesis
    proof (cases "Run_shutdown_iteration cfg l w rs")
      case None
      with Cons.prems False show ?thesis by simp
    next
      case (Some a)
      obtain ctl rs1 where a: "a = (ctl, rs1)" by (cases a)
      from Some a have r1: "result (monitor rs1) = result (monitor rs)"
        by (simp add: Run_shutdown_iteration_result)
      show ?thesis
      proof (cases ctl)
        case Break
        with Cons.prems False Some a r1 show ?thesis by simp
      next
        case Continue
        with Cons.prems False Some a have "Run_shutdown_loop cfg l d ws rs1 = Some rs'" by simp
        from Cons.IH [OF this] r1 show ?thesis by simp
      qed
    qed
  qed
qed

lemma Run_shutdown_result:
  assumes "Run_shutdown cfg ws rs = Some rs'"
  shows "result (monitor rs') = result (monitor rs)"
proof (cases "sandboxee_exited rs")
  case True
  with assms show ?thesis by (simp add: Run_shutdown_def)
next
  case False
  show ?thesis
  proof (cases ws)
    case Nil
    with assms False show ?thesis by (simp add: Run_shutdown_def)
  next
    case (Cons w ws1)
    define l where "l = (final_status (result (monitor rs)) \<noteq> OK \<and> sandbox2_log_all_stack_traces cfg)"
    define X where "X = (if \<not> l then emit (Kill (main_pid cfg) SIGKILL) (monitor rs) else monitor rs)"
    define d where "d = (if l then now_millis w + sandbox2_stack_traces_collection_timeout cfg
                         else now_millis w + 200)"
    from assms False have "Run_shutdown_loop cfg l d ws (rs\<lparr>monitor := X\<rparr>) = Some rs'"
      by (simp add: Run_shutdown_def Let_def Cons l_def X_def d_def del: Run_shutdown_loop.simps)
    moreover have "result X = result (monitor rs)" by (simp add: X_def)
    ultimately have "Run_shutdown_loop cfg l d ws (rs\<lparr>monitor := X\<rparr>) = Some rs'"
      "result X = result (monitor rs)" by simp_all
    from Run_shutdown_loop_result [OF this(1)] this(2) show ?thesis by simp
  qed
qed

lemma Run_final:
  assumes run: "Run cfg su fuel ws s0 = Some (Inr s')"
  shows "final_status (result s') \<noteq> UNSET"
  proof (cases "InitSetupSignals su")
    case False
    with run show ?thesis by (auto simp: Run_def)
  next
    case True
    show ?thesis
    proof (cases "InitPtraceAttach cfg su fuel")
      case None
      with run True show ?thesis by (simp add: Run_def)
    next
      case (Some a)
      obtain attached log where a: "a = (attached, log)" by (cases a)
      show ?thesis
      proof (cases attached)
        case False
        with run True Some a show ?thesis by (auto simp: Run_def)
      next
        case att: True
        with run True Some a obtain rs1 ws1 rs2 where
          l: "Run_loop cfg ws \<lparr>monitor = s0, pid_waiter = PidWaiter_init (main_pid cfg),
                 sandboxee_exited = False, status_var = 0\<rparr> = Some (Inr (rs1, ws1))"
          and sh: "Run_shutdown cfg ws1 rs1 = Some rs2" and s': "s' = monitor rs2"
          by (auto simp: Run_def split: option.splits sum.splits)
        from Run_loop_final [OF l] Run_shutdown_result [OF sh] s' show ?thesis by simp
      qed
    qed
  qed

lemma Run_dispatch_stopped:
  "WIFSTOPPED status \<Longrightarrow>
   Run_dispatch cfg w ret status s exited =
     (case StateProcessStopped cfg w ret status s of
        Inl crash \<Rightarrow> Inl crash | Inr s' \<Rightarrow> Inr (s', exited))"
  using WIFSTOPPED_not_dead [of status] by (simp add: Run_dispatch_def)

lemma result_dump_stack [simp]:
  "result (StateProcessStopped_dump_stack cfg w pid s) = result s"
  by (simp add: StateProcessStopped_dump_stack_def Let_def split: FetchResult.splits)

subsection \<open>PidWaiter\<close>

lemma RefillStatuses_loop_drain:
  "\<forall>a\<in>set middle. 0 < fst a \<Longrightarrow> fst t \<le> 0 \<Longrightarrow>
   RefillStatuses_loop (- 1) pw (middle @ t # rest) calls =
     Some (pw\<lparr>statuses := statuses pw @ map child_of middle,
              last_errno := (if fst t < 0 then snd (snd t) else last_errno pw)\<rparr>,
           rest, calls @ replicate (length middle + 1) (- 1))"
proof (induction middle arbitrary: pw calls)
  case Nil
  then show ?case by (cases t) (auto simp: )
next
  case (Cons a middle)
  obtain r s e where a: "a = (r, s, e)" by (cases a)
  with Cons.prems have pos: "0 < r" by simp
  from Cons.prems have "\<forall>a\<in>set middle. 0 < fst a" by simp
  from Cons.IH [OF this Cons.prems(2)] pos a show ?case
    by (simp add: replicate_append_same)
qed

lemma RefillStatuses_loop_shape:
  "RefillStatuses_loop (- 1) pw answers calls = Some (pw1, rest, calls1) \<Longrightarrow>
   \<exists>middle t. answers = middle @ t # rest \<and> (\<forall>a\<in>set middle. 0 < fst a) \<and> fst t \<le> 0"
proof (induction answers arbitrary: pw calls)
  case Nil
  then show ?case by simp
next
  case (Cons a answers)
  obtain r s e where a: "a = (r, s, e)" by (cases a)
  show ?case
  proof (cases "0 < r")
    case True
    with Cons.prems a have
      "RefillStatuses_loop (- 1) (pw\<lparr>statuses := statuses pw @ [(r, s)]\<rparr>) answers (calls @ [- 1])
         = Some (pw1, rest, calls1)" by simp
    from Cons.IH [OF this] obtain middle t where
      "answers = middle @ t # rest" "\<forall>a\<in>set middle. 0 < fst a" "fst t \<le> 0" by blast
    with True a show ?thesis by (intro exI [of _ "a # middle"] exI [of _ t]) simp
  next
    case False
    with Cons.prems a have "rest = answers" by (simp split: if_splits)
    with False a show ?thesis by (intro exI [of _ "[]"] exI [of _ a]) simp
  qed
qed

lemma RefillStatuses_failed_first:
  "fst first < 0 \<Longrightarrow>
   RefillStatuses pw (first # rest) =
     Some (pw\<lparr>statuses := [], last_errno := snd (snd first)\<rparr>, rest, [priority_pid pw])"
  by (cases first) (simp add: RefillStatuses_def)

lemma RefillStatuses_burst:
  assumes "0 \<le> fst first" "priority_pid pw \<noteq> - 1" "\<forall>a\<in>set middle. 0 < fst a" "fst t \<le> 0"
  shows "RefillStatuses pw (first # middle @ t # rest) =
     Some (pw\<lparr>statuses := map child_of (filter (\<lambda>a. 0 < fst a) [first]) @ map child_of middle,
              last_errno := (if fst t < 0 then snd (snd t) else 0)\<rparr>,
           rest, priority_pid pw # replicate (length middle + 1) (- 1))"
proof -
  obtain r s e where f: "first = (r, s, e)" by (cases first)
  show ?thesis
  proof (cases "0 < r")
    case True
    with f assms show ?thesis
      by (simp add: RefillStatuses_def RefillStatuses_loop_drain)
  next
    case False
    with f assms have "r = 0" by simp
    with f assms show ?thesis
      by (simp add: RefillStatuses_def RefillStatuses_loop_drain)
  qed
qed

lemma RefillStatuses_shape:
  assumes "RefillStatuses pw answers = Some (pw1, rest, calls)" "priority_pid pw \<noteq> - 1"
  shows "(\<exists>first. fst first < 0 \<and> answers = first # rest)
       \<or> (\<exists>first middle t. 0 \<le> fst first \<and> (\<forall>a\<in>set middle. 0 < fst a) \<and> fst t \<le> 0
            \<and> answers = first # middle @ t # rest)"
proof (cases answers)
  case Nil
  with assms show ?thesis by (simp add: RefillStatuses_def)
next
  case (Cons first answers1)
  obtain r s e where f: "first = (r, s, e)" by (cases first)
  show ?thesis
  proof (cases "r < 0")
    case True
    with assms Cons f have "rest = answers1" by (simp add: RefillStatuses_def)
    with True Cons f show ?thesis by auto
  next
    case False
    with assms Cons f obtain pwx callsx where
      "RefillStatuses_loop (- 1) pwx answers1 callsx = Some (pw1, rest, calls)"
      by (auto simp: RefillStatuses_def split: if_splits)
    from RefillStatuses_loop_shape [OF this] obtain middle t where
      "answers1 = middle @ t # rest" "\<forall>a\<in>set middle. 0 < fst a" "fst t \<le> 0" by blast
    with False Cons f show ?thesis
      by (intro disjI2 exI [of _ first] exI [of _ middle] exI [of _ t]) simp
  qed
qed

lemma Wait_queued:
  "statuses pw = e # q \<Longrightarrow>
   Wait pw answers =
     Some (\<lparr>wr_ret = fst e, wr_status = Some (snd e), wr_errno = None\<rparr>,
           pw\<lparr>statuses := q\<rparr>, answers, [])"
  by (simp add: Wait_def)

lemma Wait_pending_error:
  "statuses pw = [] \<Longrightarrow> last_errno pw \<noteq> 0 \<Longrightarrow>
   Wait pw answers =
     Some (\<lparr>wr_ret = - 1, wr_status = None, wr_errno = Some (last_errno pw)\<rparr>,
           pw\<lparr>last_errno := 0\<rparr>, answers, [])"
  by (simp add: Wait_def)

lemma Wait_refill:
  "statuses pw = [] \<Longrightarrow> last_errno pw = 0 \<Longrightarrow>
   RefillStatuses pw answers = Some (pw1, rest, calls) \<Longrightarrow>
   Wait pw answers =
     (case statuses pw1 of
        [] \<Rightarrow> if last_errno pw1 = 0
              then Some (\<lparr>wr_ret = 0, wr_status = None, wr_errno = None\<rparr>, pw1, rest, calls)
              else Some (\<lparr>wr_ret = - 1, wr_status = None, wr_errno = Some (last_errno pw1)\<rparr>,
                         pw1\<lparr>last_errno := 0\<rparr>, rest, calls)
      | e # q \<Rightarrow> Some (\<lparr>wr_ret = fst e, wr_status = Some (snd e), wr_errno = None\<rparr>,
                       pw1\<lparr>statuses := q\<rparr>, rest, calls))"
  by (simp add: Wait_def)

lemma Wait_times_drain:
  "statuses pw = q \<Longrightarrow>
   Wait_times (length q) pw answers =
     Some (map (\<lambda>e. \<lparr>wr_ret = fst e, wr_status = Some (snd e), wr_errno = None\<rparr>) q,
           pw\<lparr>statuses := []\<rparr>, answers, [])"
proof (induction q arbitrary: pw)
  case Nil
  then show ?case by simp
next
  case (Cons e q)
  from Cons.prems have w: "Wait pw answers =
     Some (\<lparr>wr_ret = fst e, wr_status = Some (snd e), wr_errno = None\<rparr>,
           pw\<lparr>statuses := q\<rparr>, answers, [])" by (rule Wait_queued)
  have "statuses (pw\<lparr>statuses := q\<rparr>) = q" by simp
  from Cons.IH [OF this] w show ?case by simp
qed


subsection \<open>The claims\<close>

text \<open>
  C1, as amended. While the Result is unset (as it is wherever the event loop dispatches):
  when \<^verbatim>\<open>waitpid\<close> reports the main PID signaled, the loop marks the sandboxee exited and
  the final status and reason code are those of the priority network violation, external
  kill, timeout, signaled with the terminating signal; and the same choice is made at a
  \<^verbatim>\<open>PTRACE_EVENT_EXIT\<close> of the main PID whose event message is neither a normal exit
  nor a death by SIGSYS, when the registers can be fetched. An exit event that reports a
  death by SIGSYS goes to the violation handler whatever the flags are: the final status
  is VIOLATION with the number of the syscall in the registers. An exit event that is not
  a normal exit and for which the registers cannot be fetched gives INTERNAL_ERROR with
  FAILED_FETCH, again whatever the flags are.
\<close>

theorem main_pid_signal_death_priority:
  assumes "final_status (result s) = UNSET"
  shows "(WIFSIGNALED status \<longrightarrow>
            (\<exists>s'. Run_dispatch cfg w (main_pid cfg) status s exited = Inr (s', True)
                  \<and> final_of s' =
                      spec_priority_status (reason_value cfg VIOLATION_NETWORK)
                        (network_violation_seen s) (external_kill s) (timed_out s)
                        (WTERMSIG status)))
       \<and> (\<not> WIFEXITED event_msg \<and> \<not> (WIFSIGNALED event_msg \<and> WTERMSIG event_msg = SIGSYS)
            \<and> Fetch w (main_pid cfg) = FetchOk fetched \<longrightarrow>
            final_of (EventPtraceExit cfg w (main_pid cfg) event_msg s) =
              spec_priority_status (reason_value cfg VIOLATION_NETWORK)
                (network_violation_seen s) (external_kill s) (timed_out s)
                (WTERMSIG event_msg))
       \<and> (WIFSIGNALED event_msg \<and> WTERMSIG event_msg = SIGSYS
            \<and> Fetch w (main_pid cfg) = FetchOk fetched \<longrightarrow>
            EventPtraceExit cfg w (main_pid cfg) event_msg s =
              ActionProcessSyscallViolation cfg w (fetched\<lparr>regs_pid := main_pid cfg\<rparr>)
                (ToSyscall (fetched\<lparr>regs_pid := main_pid cfg\<rparr>) (GetHostArch cfg))
                kSyscallViolation
                (emit (Regs_Fetch (main_pid cfg)) (table_erase (main_pid cfg) s))
            \<and> final_of (EventPtraceExit cfg w (main_pid cfg) event_msg s) =
                (VIOLATION, regs_nr fetched))
       \<and> (\<not> WIFEXITED event_msg
            \<and> (Fetch w (main_pid cfg) = FetchNotFound \<or> Fetch w (main_pid cfg) = FetchError) \<longrightarrow>
            final_of (EventPtraceExit cfg w (main_pid cfg) event_msg s) =
              (INTERNAL_ERROR, reason_value cfg FAILED_FETCH))"
proof (intro conjI impI)
  assume sig: "WIFSIGNALED status"
  then have "\<not> WIFEXITED status" by (rule WIFSIGNALED_not_WIFEXITED)
  with sig have "Run_dispatch cfg w (main_pid cfg) status s exited
                  = Inr (Run_signaled_status cfg w status s, True)"
    by (simp add: Run_dispatch_def)
  with assms show "\<exists>s'. Run_dispatch cfg w (main_pid cfg) status s exited = Inr (s', True)
      \<and> final_of s' = spec_priority_status (reason_value cfg VIOLATION_NETWORK)
          (network_violation_seen s) (external_kill s) (timed_out s) (WTERMSIG status)"
    by (simp add: final_of_Run_signaled_status)
next
  assume h: "\<not> WIFEXITED event_msg \<and> \<not> (WIFSIGNALED event_msg \<and> WTERMSIG event_msg = SIGSYS)
            \<and> Fetch w (main_pid cfg) = FetchOk fetched"
  let ?s1 = "emit (Regs_Fetch (main_pid cfg)) (table_erase (main_pid cfg) s)"
  from h have "EventPtraceExit cfg w (main_pid cfg) event_msg s =
      ContinueProcess (main_pid cfg) 0
        (SetAdditionalResultInfo cfg w (fetched\<lparr>regs_pid := main_pid cfg\<rparr>)
           (EventPtraceExit_main_status cfg w event_msg ?s1))"
    by (auto simp: EventPtraceExit_def Let_def)
  moreover have "final_status (result ?s1) = UNSET"
    using assms by (simp add: emit_def table_erase_def)
  ultimately show "final_of (EventPtraceExit cfg w (main_pid cfg) event_msg s) =
              spec_priority_status (reason_value cfg VIOLATION_NETWORK)
                (network_violation_seen s) (external_kill s) (timed_out s)
                (WTERMSIG event_msg)"
    using h by (simp add: final_of_main_status emit_def table_erase_def)
next
  assume h: "WIFSIGNALED event_msg \<and> WTERMSIG event_msg = SIGSYS
            \<and> Fetch w (main_pid cfg) = FetchOk fetched"
  then have ne: "\<not> WIFEXITED event_msg" by (simp add: WIFSIGNALED_not_WIFEXITED)
  let ?s1 = "emit (Regs_Fetch (main_pid cfg)) (table_erase (main_pid cfg) s)"
  from h ne show eq: "EventPtraceExit cfg w (main_pid cfg) event_msg s =
      ActionProcessSyscallViolation cfg w (fetched\<lparr>regs_pid := main_pid cfg\<rparr>)
        (ToSyscall (fetched\<lparr>regs_pid := main_pid cfg\<rparr>) (GetHostArch cfg))
        kSyscallViolation ?s1"
    by (simp add: EventPtraceExit_def Let_def)
  have "final_status (result ?s1) = UNSET"
    using assms by (simp add: emit_def table_erase_def)
  then show "final_of (EventPtraceExit cfg w (main_pid cfg) event_msg s) =
                (VIOLATION, regs_nr fetched)"
    unfolding eq by (simp add: final_of_violation ToSyscall_def)
next
  assume h: "\<not> WIFEXITED event_msg
            \<and> (Fetch w (main_pid cfg) = FetchNotFound \<or> Fetch w (main_pid cfg) = FetchError)"
  let ?s1 = "emit (Regs_Fetch (main_pid cfg)) (table_erase (main_pid cfg) s)"
  from h have "EventPtraceExit cfg w (main_pid cfg) event_msg s =
      SetExitStatusCode INTERNAL_ERROR (reason_value cfg FAILED_FETCH) ?s1"
    by (auto simp: EventPtraceExit_def Let_def)
  then show "final_of (EventPtraceExit cfg w (main_pid cfg) event_msg s) =
              (INTERNAL_ERROR, reason_value cfg FAILED_FETCH)"
    using assms by (simp add: final_of_def SetExitStatusCode_def emit_def table_erase_def)
qed

text \<open>
  The main PID is killed by SIGKILL after the deadline passed: reported by \<^verbatim>\<open>waitpid\<close> or
  by the exit event, the final status is TIMEOUT with reason 0. Were the exit event to
  report SIGSYS instead, the status would be VIOLATION with the syscall number 1 of the
  registers; and were the registers unreadable, INTERNAL_ERROR with FAILED_FETCH (14).
\<close>

theorem main_pid_signal_death_priority_witness:
  "final_status (result ((PtraceMonitor_init False)\<lparr>timed_out := True\<rparr>)) = UNSET
   \<and> WIFSIGNALED 9
   \<and> Run_dispatch example_config (example_world kAllow []) 100 9
        ((PtraceMonitor_init False)\<lparr>timed_out := True\<rparr>) False
      = Inr (SetExitStatusCode TIMEOUT 0 ((PtraceMonitor_init False)\<lparr>timed_out := True\<rparr>), True)
   \<and> \<not> WIFEXITED 9 \<and> WTERMSIG 9 \<noteq> SIGSYS
   \<and> final_of (EventPtraceExit example_config (example_world kAllow []) 100 9
        ((PtraceMonitor_init False)\<lparr>timed_out := True\<rparr>)) = (TIMEOUT, 0)
   \<and> WIFSIGNALED 31 \<and> WTERMSIG 31 = SIGSYS
   \<and> final_of (EventPtraceExit example_config (example_world kAllow []) 100 31
        ((PtraceMonitor_init False)\<lparr>timed_out := True\<rparr>)) = (VIOLATION, 1)
   \<and> final_of (EventPtraceExit example_config
        ((example_world kAllow [])\<lparr>Fetch := (\<lambda>p. FetchError)\<rparr>) 100 9
        ((PtraceMonitor_init False)\<lparr>timed_out := True\<rparr>)) = (INTERNAL_ERROR, 14)"
proof -
  let ?s = "(PtraceMonitor_init False)\<lparr>timed_out := True\<rparr>"
  let ?w = "example_world kAllow []"
  let ?wf = "(example_world kAllow [])\<lparr>Fetch := (\<lambda>p. FetchError)\<rparr>"
  have unset: "final_status (result ?s) = UNSET"
    by (simp add: PtraceMonitor_init_def unset_result_def)
  have flags: "\<not> network_violation_seen ?s" "\<not> external_kill ?s" "timed_out ?s"
    by (simp_all add: PtraceMonitor_init_def)
  have st9: "WIFSIGNALED 9" "\<not> WIFEXITED 9" "WTERMSIG 9 \<noteq> SIGSYS"
    and st31: "WIFSIGNALED 31" "WTERMSIG 31 = SIGSYS"
    by (simp_all add: WIFSIGNALED_def WIFEXITED_def WTERMSIG_def signed_char_def SIGSYS_def)
  have pid: "main_pid example_config = 100"
    and code: "reason_value example_config FAILED_FETCH = 14"
    by (simp_all add: example_config_def example_reason_value_def)
  have fetch: "Fetch ?w (main_pid example_config) = FetchOk example_regs"
    and nofetch: "Fetch ?wf (main_pid example_config) = FetchError"
    by (simp_all add: example_world_def)
  have nr: "regs_nr example_regs = 1" by (simp add: example_regs_def)
  have prio: "spec_priority_status (reason_value example_config VIOLATION_NETWORK)
      (network_violation_seen ?s) (external_kill ?s) (timed_out ?s) (WTERMSIG 9) = (TIMEOUT, 0)"
    by (simp add: spec_priority_status_def PtraceMonitor_init_def)
  have disp: "Run_dispatch example_config ?w 100 9 ?s False
      = Inr (SetExitStatusCode TIMEOUT 0 ?s, True)"
    using st9 flags
    by (simp add: Run_dispatch_def Run_signaled_status_def pid)
  from main_pid_signal_death_priority [OF unset, where cfg = example_config and w = ?w
      and event_msg = 9 and fetched = example_regs and status = 9 and exited = False]
    st9 fetch
  have "final_of (EventPtraceExit example_config ?w (main_pid example_config) 9 ?s)
      = spec_priority_status (reason_value example_config VIOLATION_NETWORK)
          (network_violation_seen ?s) (external_kill ?s) (timed_out ?s) (WTERMSIG 9)"
    by blast
  then have a: "final_of (EventPtraceExit example_config ?w 100 9 ?s) = (TIMEOUT, 0)"
    by (simp only: pid prio)
  from main_pid_signal_death_priority [OF unset, where cfg = example_config and w = ?w
      and event_msg = 31 and fetched = example_regs and status = 9 and exited = False]
    st31 fetch
  have "final_of (EventPtraceExit example_config ?w (main_pid example_config) 31 ?s)
      = (VIOLATION, regs_nr example_regs)"
    by blast
  then have b: "final_of (EventPtraceExit example_config ?w 100 31 ?s) = (VIOLATION, 1)"
    by (simp only: pid nr)
  from main_pid_signal_death_priority [OF unset, where cfg = example_config and w = ?wf
      and event_msg = 9 and fetched = example_regs and status = 9 and exited = False]
    st9 nofetch
  have "final_of (EventPtraceExit example_config ?wf (main_pid example_config) 9 ?s)
      = (INTERNAL_ERROR, reason_value example_config FAILED_FETCH)"
    by blast
  then have c: "final_of (EventPtraceExit example_config ?wf 100 9 ?s) = (INTERNAL_ERROR, 14)"
    by (simp only: pid code)
  from unset st9 st31 disp a b c show ?thesis by blast
qed

text \<open>
  C1 as stated fails: the exit event of main PID 100 carries the event message 31, a
  death by SIGSYS and so not a normal exit, while an external kill has been requested.
  The priority would give EXTERNAL_KILL; the handler takes the event for a seccomp kill
  first and records VIOLATION with the syscall number (1 here) as the reason.
\<close>

theorem EventPtraceExit_sigsys_counterexample:
  "\<not> WIFEXITED 31 \<and> WIFSIGNALED 31
   \<and> external_kill ((PtraceMonitor_init False)\<lparr>external_kill := True\<rparr>)
   \<and> final_of (EventPtraceExit example_config (example_world kAllow []) 100 31
        ((PtraceMonitor_init False)\<lparr>external_kill := True\<rparr>)) = (VIOLATION, 1)"
  by (simp add: PtraceMonitor_init_def unset_result_def WIFSIGNALED_def WIFEXITED_def
      WTERMSIG_def signed_char_def SIGSYS_def example_config_def example_world_def
      EventPtraceExit_def Let_def final_of_def ActionProcessSyscallViolation_def
      SetExitStatusCode_def emit_def table_erase_def SetAdditionalResultInfo_def
      ToSyscall_def example_regs_def)














text \<open>
  C4. \<^verbatim>\<open>ActionProcessSyscall\<close>, case by case: an \<^verbatim>\<open>execveat\<close> while the monitor still
  waits for the execve is continued and Notify is not called; otherwise Notify is asked,
  and on \<^verbatim>\<open>kAllow\<close> the PID is continued, on \<^verbatim>\<open>kInspectAfterReturn\<close> the syscall is
  stored in the table and the PID resumed with \<^verbatim>\<open>PTRACE_SYSCALL\<close>, and on \<^verbatim>\<open>kDeny\<close>
  the PID is continued when the log file is in use (after the line was written; a failed
  write aborts the monitor) or the permit-all flag is set, and else the violation is
  recorded: the Result, if unset, becomes VIOLATION with the syscall number,
  \<^verbatim>\<open>EventSyscallViolation\<close> is called, and the PID is not continued.
\<close>

theorem ActionProcessSyscall_decision:
  "(sc_nr syscall = NR_execveat cfg \<and> wait_for_execve s \<longrightarrow>
      ActionProcessSyscall cfg w regs syscall s =
        Inr (s\<lparr>effects := effects s @ [Ptrace_CONT (regs_pid regs) 0]\<rparr>))
   \<and> (\<not> (sc_nr syscall = NR_execveat cfg \<and> wait_for_execve s) \<longrightarrow>
        (EventSyscallTrace w syscall = kAllow \<longrightarrow>
           ActionProcessSyscall cfg w regs syscall s =
             Inr (s\<lparr>effects := effects s @
                    [Notify_EventSyscallTrace syscall, Ptrace_CONT (regs_pid regs) 0]\<rparr>))
      \<and> (EventSyscallTrace w syscall = kInspectAfterReturn \<longrightarrow>
           ActionProcessSyscall cfg w regs syscall s =
             Inr (s\<lparr>syscalls_in_progress :=
                      (syscalls_in_progress s)(regs_pid regs \<mapsto> syscall),
                    effects := effects s @
                      [Notify_EventSyscallTrace syscall, Ptrace_SYSCALL (regs_pid regs) 0]\<rparr>))
      \<and> (EventSyscallTrace w syscall = kDeny \<and> log_file cfg \<and> fprintf_ok w \<longrightarrow>
           ActionProcessSyscall cfg w regs syscall s =
             Inr (s\<lparr>effects := effects s @
                    [Notify_EventSyscallTrace syscall, LogFile_Print (regs_pid regs) syscall,
                     Ptrace_CONT (regs_pid regs) 0]\<rparr>))
      \<and> (EventSyscallTrace w syscall = kDeny \<and> log_file cfg \<and> \<not> fprintf_ok w \<longrightarrow>
           ActionProcessSyscall cfg w regs syscall s = Inl PCHECK_FAILED)
      \<and> (EventSyscallTrace w syscall = kDeny \<and> \<not> log_file cfg
           \<and> sandbox2_danger_danger_permit_all cfg \<longrightarrow>
           ActionProcessSyscall cfg w regs syscall s =
             Inr (s\<lparr>effects := effects s @
                    [Notify_EventSyscallTrace syscall, Ptrace_CONT (regs_pid regs) 0]\<rparr>))
      \<and> (EventSyscallTrace w syscall = kDeny \<and> \<not> log_file cfg
           \<and> \<not> sandbox2_danger_danger_permit_all cfg \<longrightarrow>
           (\<exists>s'. ActionProcessSyscall cfg w regs syscall s = Inr s'
              \<and> s' = ActionProcessSyscallViolation cfg w regs syscall kSyscallViolation
                       (emit (Notify_EventSyscallTrace syscall) s)
              \<and> (final_status (result s) = UNSET \<longrightarrow> final_of s' = (VIOLATION, sc_nr syscall))
              \<and> Notify_EventSyscallViolation syscall kSyscallViolation \<in> set (effects s')
              \<and> syscalls_in_progress s' = syscalls_in_progress s
              \<and> length (filter (\<lambda>e. e = Ptrace_CONT (regs_pid regs) 0) (effects s'))
                  = length (filter (\<lambda>e. e = Ptrace_CONT (regs_pid regs) 0) (effects s)))))"
  by (auto simp: ActionProcessSyscall_def IsActivelyMonitoring_def ContinueProcess_def
      CompleteSyscall_def table_store_def emit_def Let_def final_of_violation effects_violation)

text \<open>A \<^verbatim>\<open>write\<close> (syscall 1) that Notify denies, with no escape hatch: a violation.\<close>

theorem ActionProcessSyscall_decision_witness:
  "sc_nr (ToSyscall example_regs 0xCAF1) \<noteq> NR_execveat example_config
   \<and> EventSyscallTrace (example_world kDeny []) (ToSyscall example_regs 0xCAF1) = kDeny
   \<and> \<not> log_file example_config \<and> \<not> sandbox2_danger_danger_permit_all example_config
   \<and> final_status (result (PtraceMonitor_init False)) = UNSET
   \<and> (case ActionProcessSyscall example_config (example_world kDeny []) example_regs
              (ToSyscall example_regs 0xCAF1) (PtraceMonitor_init False) of
         Inl crash \<Rightarrow> False
       | Inr s' \<Rightarrow> final_of s' = (VIOLATION, 1))"
  using ActionProcessSyscall_decision [of "ToSyscall example_regs 0xCAF1" example_config
      "PtraceMonitor_init False" "example_world kDeny []" example_regs]
  by (auto simp: example_config_def example_world_def example_regs_def ToSyscall_def
      PtraceMonitor_init_def unset_result_def)

text \<open>
  C9. With the Result unset: a syscall-exit stop of a PID without an entry in the table
  changes the Result to INTERNAL_ERROR with reason FAILED_INSPECT and nothing else, so no
  request continues the PID; \<^verbatim>\<open>EventSyscallExit\<close> emits an effect or changes the table
  only when the PID has an entry; and with an entry and readable registers it calls
  \<^verbatim>\<open>EventSyscallReturn\<close> with the entry and the return register, erases the entry and
  continues the PID.
\<close>

theorem EventSyscallExit_contract:
  assumes "final_status (result s) = UNSET"
  shows "(syscalls_in_progress s pid = None \<longrightarrow>
            EventSyscallExit cfg w pid s =
              s\<lparr>result := (result s)\<lparr>final_status := INTERNAL_ERROR,
                                        reason_code := reason_value cfg FAILED_INSPECT\<rparr>\<rparr>)
       \<and> (effects (EventSyscallExit cfg w pid s) \<noteq> effects s
            \<or> syscalls_in_progress (EventSyscallExit cfg w pid s) \<noteq> syscalls_in_progress s
          \<longrightarrow> syscalls_in_progress s pid \<noteq> None)
       \<and> (\<forall>sc fetched. syscalls_in_progress s pid = Some sc \<and> Fetch w pid = FetchOk fetched \<longrightarrow>
            EventSyscallExit cfg w pid s =
              (table_erase pid s)\<lparr>effects := effects s @
                 [Regs_Fetch pid, Notify_EventSyscallReturn sc (regs_ret fetched),
                  Ptrace_CONT pid 0]\<rparr>)"
  using assms
  by (auto simp: EventSyscallExit_def SetExitStatusCode_def emit_def table_erase_def
      ContinueProcess_def GetReturnValue_def Let_def split: option.splits FetchResult.splits)

text \<open>A syscall-exit stop of PID 7 on a fresh monitor: INTERNAL_ERROR, and no effect.\<close>

theorem EventSyscallExit_contract_witness:
  "final_status (result (PtraceMonitor_init False)) = UNSET
   \<and> syscalls_in_progress (PtraceMonitor_init False) 7 = None
   \<and> final_of (EventSyscallExit example_config (example_world kAllow []) 7
        (PtraceMonitor_init False)) = (INTERNAL_ERROR, 20)
   \<and> effects (EventSyscallExit example_config (example_world kAllow []) 7
        (PtraceMonitor_init False)) = []"
  using EventSyscallExit_contract [of "PtraceMonitor_init False" 7 example_config
      "example_world kAllow []"]
  by (simp add: PtraceMonitor_init_def unset_result_def final_of_def example_config_def
      example_reason_value_def)

text \<open>
  C2. Once the final status is set, \<^verbatim>\<open>SetExitStatusCode\<close> changes nothing; the event
  loop, entered with the status set, returns without an iteration; whenever \<^verbatim>\<open>Run\<close>
  returns, from a failed set-up, from the loop's condition or from one of its breaks, the
  final status is set, so the \<^verbatim>\<open>CHECK\<close> of \<^verbatim>\<open>Join\<close> passes and the Result handed out is
  not UNSET; and the wait for the sandboxee after the loop leaves the Result as it is.
\<close>

theorem final_status_set_once:
  "(final_status (result s) \<noteq> UNSET \<longrightarrow> SetExitStatusCode status code s = s)
   \<and> (final_status (result (monitor rs)) \<noteq> UNSET \<longrightarrow> Run_loop cfg ws rs = Some (Inr (rs, ws)))
   \<and> (Run cfg su fuel ws s0 = Some (Inr s') \<longrightarrow>
        final_status (result s') \<noteq> UNSET \<and> Join s' = Inr (result s'))
   \<and> (Run_shutdown cfg ws rs = Some rs' \<longrightarrow> result (monitor rs') = result (monitor rs))"
proof -
  have "final_status (result s) \<noteq> UNSET \<longrightarrow> SetExitStatusCode status code s = s"
    by (simp add: SetExitStatusCode_dropped)
  moreover have "final_status (result (monitor rs)) \<noteq> UNSET \<longrightarrow>
                 Run_loop cfg ws rs = Some (Inr (rs, ws))"
    by (cases ws) simp_all
  moreover have "Run cfg su fuel ws s0 = Some (Inr s') \<longrightarrow>
        final_status (result s') \<noteq> UNSET \<and> Join s' = Inr (result s')"
    using Run_final [of cfg su fuel ws s0 s'] by (simp add: Join_def)
  moreover have "Run_shutdown cfg ws rs = Some rs' \<longrightarrow>
                 result (monitor rs') = result (monitor rs)"
    using Run_shutdown_result [of cfg ws rs rs'] by blast
  ultimately show ?thesis by blast
qed


text \<open>
  The main PID 100 exits with code 0 in the first iteration: \<^verbatim>\<open>Run\<close> returns with OK.
\<close>

theorem final_status_set_once_witness:
  "Run example_config example_setup (Suc (Suc 0))
       [example_world kAllow [(100, 0, 0), (0, 0, 0)]] (PtraceMonitor_init False)
     = Some (Inr (SetExitStatusCode OK 0 (PtraceMonitor_init False)))
   \<and> final_of (SetExitStatusCode OK 0 (PtraceMonitor_init False)) = (OK, 0)
   \<and> Join (SetExitStatusCode OK 0 (PtraceMonitor_init False))
       = Inr (result (SetExitStatusCode OK 0 (PtraceMonitor_init False)))"
proof -
  have run: "Run example_config example_setup (Suc (Suc 0))
       [example_world kAllow [(100, 0, 0), (0, 0, 0)]] (PtraceMonitor_init False)
     = Some (Inr (SetExitStatusCode OK 0 (PtraceMonitor_init False)))"
    by (simp add: Run_def InitSetupSignals_def InitPtraceAttach_def example_setup_def
        example_config_def example_world_def Let_def Run_iteration_def Run_checks_def
        Run_check_deadline_def Run_check_dump_stack_def Run_check_external_kill_def
        Run_check_network_def Wait_def RefillStatuses_def PidWaiter_init_def Run_dispatch_def
        WIFEXITED_def WTERMSIG_def WEXITSTATUS_def IsActivelyMonitoring_def
        PtraceMonitor_init_def unset_result_def SetExitStatusCode_def Run_shutdown_def)
  from final_status_set_once [where cfg = example_config and su = example_setup
      and fuel = "Suc (Suc 0)" and ws = "[example_world kAllow [(100, 0, 0), (0, 0, 0)]]"
      and ?s0.0 = "PtraceMonitor_init False"
      and s' = "SetExitStatusCode OK 0 (PtraceMonitor_init False)"] run
  show ?thesis
    by (simp add: final_of_def SetExitStatusCode_def PtraceMonitor_init_def unset_result_def)
qed

text \<open>
  C8. An event message outside the range of the known architectures makes
  \<^verbatim>\<open>EventPtraceSeccomp\<close> return the monitor as it is: the Result, the table and the
  effects are unchanged, so no register is fetched and no violation raised. In the event
  loop, an iteration that receives such a seccomp stop ends with the Result still unset
  and the loop goes on with the next iteration, where the events that follow are handled.
\<close>

theorem EventPtraceSeccomp_unknown_architecture:
  assumes "event_msg < kUnknown cfg \<or> event_msg > kMax cfg"
  shows "EventPtraceSeccomp cfg w pid event_msg s = Inr s
     \<and> (final_status (result (monitor rs)) = UNSET
        \<and> Run_checks cfg w (monitor rs) = (True, s)
        \<and> Wait (pid_waiter rs) (waitpid_responses w)
            = Some (\<lparr>wr_ret = pid, wr_status = Some status, wr_errno = None\<rparr>, pw, rest, calls)
        \<and> 0 < pid \<and> WIFSTOPPED status \<and> WSTOPSIG status \<noteq> SIGTRAP OR 0x80
        \<and> WPTRACEEVENT status = PTRACE_EVENT_SECCOMP
        \<and> PTRACE_GETEVENTMSG w pid = PtraceOk m \<and> int_of_ulong m = event_msg
        \<longrightarrow> Run_loop cfg (w # ws) rs
              = Run_loop cfg ws
                  (rs\<lparr>pid_waiter := pw, status_var := status,
                       monitor := StateProcessStopped_dump_stack cfg w pid s\<rparr>)
            \<and> result (StateProcessStopped_dump_stack cfg w pid s) = result (monitor rs)
            \<and> syscalls_in_progress (StateProcessStopped_dump_stack cfg w pid s)
                = syscalls_in_progress s)"
proof (intro conjI impI)
  from assms show handler: "EventPtraceSeccomp cfg w pid event_msg s = Inr s"
    by (simp add: EventPtraceSeccomp_def)
  assume h: "final_status (result (monitor rs)) = UNSET
        \<and> Run_checks cfg w (monitor rs) = (True, s)
        \<and> Wait (pid_waiter rs) (waitpid_responses w)
            = Some (\<lparr>wr_ret = pid, wr_status = Some status, wr_errno = None\<rparr>, pw, rest, calls)
        \<and> 0 < pid \<and> WIFSTOPPED status \<and> WSTOPSIG status \<noteq> SIGTRAP OR 0x80
        \<and> WPTRACEEVENT status = PTRACE_EVENT_SECCOMP
        \<and> PTRACE_GETEVENTMSG w pid = PtraceOk m \<and> int_of_ulong m = event_msg"
  let ?s1 = "StateProcessStopped_dump_stack cfg w pid s"
  from assms h have "EventPtraceSeccomp cfg w pid (int_of_ulong m) ?s1 = Inr ?s1"
    by (simp add: EventPtraceSeccomp_def)
  with h have stopped: "StateProcessStopped cfg w pid status s = Inr ?s1"
    by (simp add: StateProcessStopped_def Let_def ptrace_event_defs)
  with h have disp: "Run_dispatch cfg w pid status s (sandboxee_exited rs)
                      = Inr (?s1, sandboxee_exited rs)"
    by (simp add: Run_dispatch_stopped)
  from h disp have it: "Run_iteration cfg w rs =
      Some (Inr (Continue, rs\<lparr>pid_waiter := pw, status_var := status, monitor := ?s1\<rparr>))"
    by (simp add: Run_iteration_def Let_def)
  with h show "Run_loop cfg (w # ws) rs
              = Run_loop cfg ws (rs\<lparr>pid_waiter := pw, status_var := status, monitor := ?s1\<rparr>)"
    by simp
  from h Run_checks_result(1) [of cfg w "monitor rs"]
  show "result ?s1 = result (monitor rs)" by simp
  show "syscalls_in_progress ?s1 = syscalls_in_progress s"
    using dump_block by blast
qed

text \<open>
  PID 100 stops at a seccomp event whose message is 0, an exit status: the event is
  dropped. The next iteration sees PID 100 exit with code 0 and the run ends with OK.
\<close>

theorem EventPtraceSeccomp_unknown_architecture_witness:
  "(0::int) < kUnknown example_config
   \<and> Run_checks example_config (example_world kAllow [(100, 0x7057F, 0), (0, 0, 0)])
        (PtraceMonitor_init False) = (True, PtraceMonitor_init False)
   \<and> Wait (PidWaiter_init 100) [(100, 0x7057F, 0), (0, 0, 0)]
       = Some (\<lparr>wr_ret = 100, wr_status = Some 0x7057F, wr_errno = None\<rparr>,
               PidWaiter_init 100, [], [100, - 1])
   \<and> WIFSTOPPED 0x7057F \<and> WSTOPSIG 0x7057F = SIGTRAP
   \<and> WPTRACEEVENT 0x7057F = PTRACE_EVENT_SECCOMP
   \<and> EventPtraceSeccomp example_config (example_world kAllow [(100, 0x7057F, 0), (0, 0, 0)])
        100 0 (PtraceMonitor_init False) = Inr (PtraceMonitor_init False)
   \<and> Run_loop example_config
        [example_world kAllow [(100, 0x7057F, 0), (0, 0, 0)],
         example_world kAllow [(100, 0, 0), (0, 0, 0)]]
        \<lparr>monitor = PtraceMonitor_init False, pid_waiter = PidWaiter_init 100,
         sandboxee_exited = False, status_var = 0\<rparr>
       = Some (Inr (\<lparr>monitor = SetExitStatusCode OK 0 (PtraceMonitor_init False),
                      pid_waiter = PidWaiter_init 100, sandboxee_exited = True,
                      status_var = 0\<rparr>, []))"
proof -
  let ?w = "example_world kAllow [(100, 0x7057F, 0), (0, 0, 0)]"
  let ?w2 = "example_world kAllow [(100, 0, 0), (0, 0, 0)]"
  let ?rs = "\<lparr>monitor = PtraceMonitor_init False, pid_waiter = PidWaiter_init 100,
              sandboxee_exited = False, status_var = 0\<rparr>"
  have range: "(0::int) < kUnknown example_config \<or> (0::int) > kMax example_config"
    by (simp add: example_config_def)
  have checks: "Run_checks example_config ?w (PtraceMonitor_init False)
                  = (True, PtraceMonitor_init False)"
    by (simp add: Run_checks_def Run_check_deadline_def Run_check_dump_stack_def
        Run_check_external_kill_def Run_check_network_def example_world_def example_config_def
        Let_def)
  have wait: "Wait (PidWaiter_init 100) [(100, 0x7057F, 0), (0, 0, 0)]
       = Some (\<lparr>wr_ret = 100, wr_status = Some 0x7057F, wr_errno = None\<rparr>,
               PidWaiter_init 100, [], [100, - 1])"
    by (simp add: Wait_def RefillStatuses_def PidWaiter_init_def)
  have status: "WIFSTOPPED 0x7057F" "WSTOPSIG 0x7057F = SIGTRAP"
    "WPTRACEEVENT 0x7057F = PTRACE_EVENT_SECCOMP"
    by (simp_all add: WIFSTOPPED_def WSTOPSIG_def WEXITSTATUS_def WPTRACEEVENT_def SIGTRAP_def
        PTRACE_EVENT_SECCOMP_def)
  have dump: "StateProcessStopped_dump_stack example_config ?w 100 (PtraceMonitor_init False)
                = PtraceMonitor_init False"
    by (simp add: StateProcessStopped_dump_stack_def PtraceMonitor_init_def)
  have second: "Run_loop example_config [?w2]
                  (?rs\<lparr>pid_waiter := PidWaiter_init 100, status_var := 0x7057F,
                        monitor := PtraceMonitor_init False\<rparr>)
       = Some (Inr (\<lparr>monitor = SetExitStatusCode OK 0 (PtraceMonitor_init False),
                      pid_waiter = PidWaiter_init 100, sandboxee_exited = True,
                      status_var = 0\<rparr>, []))"
    by (simp add: example_config_def example_world_def Let_def Run_iteration_def Run_checks_def
        Run_check_deadline_def Run_check_dump_stack_def Run_check_external_kill_def
        Run_check_network_def Wait_def RefillStatuses_def PidWaiter_init_def Run_dispatch_def
        WIFEXITED_def WTERMSIG_def WEXITSTATUS_def IsActivelyMonitoring_def
        PtraceMonitor_init_def unset_result_def SetExitStatusCode_def)
  have hyp: "final_status (result (monitor ?rs)) = UNSET
        \<and> Run_checks example_config ?w (monitor ?rs) = (True, PtraceMonitor_init False)
        \<and> Wait (pid_waiter ?rs) (waitpid_responses ?w)
            = Some (\<lparr>wr_ret = 100, wr_status = Some 0x7057F, wr_errno = None\<rparr>,
                    PidWaiter_init 100, [], [100, - 1])
        \<and> (0::int) < 100 \<and> WIFSTOPPED 0x7057F \<and> WSTOPSIG 0x7057F \<noteq> SIGTRAP OR 0x80
        \<and> WPTRACEEVENT 0x7057F = PTRACE_EVENT_SECCOMP
        \<and> PTRACE_GETEVENTMSG ?w 100 = PtraceOk 0 \<and> int_of_ulong 0 = 0"
    using checks wait status
    by (simp add: example_world_def int_of_ulong_def SIGTRAP_def PtraceMonitor_init_def
        unset_result_def)
  from EventPtraceSeccomp_unknown_architecture [OF range, where w = ?w and pid = 100
      and s = "PtraceMonitor_init False" and rs = ?rs and status = "0x7057F"
      and pw = "PidWaiter_init 100" and rest = "[]" and calls = "[100, - 1]" and m = 0
      and ws = "[?w2]"] hyp
  have handler: "EventPtraceSeccomp example_config ?w 100 0 (PtraceMonitor_init False)
                   = Inr (PtraceMonitor_init False)"
    and loop: "Run_loop example_config [?w, ?w2] ?rs
                 = Run_loop example_config [?w2]
                     (?rs\<lparr>pid_waiter := PidWaiter_init 100, status_var := 0x7057F,
                           monitor := StateProcessStopped_dump_stack example_config ?w 100
                                        (PtraceMonitor_init False)\<rparr>)"
    by blast+
  have final: "Run_loop example_config [?w, ?w2] ?rs
       = Some (Inr (\<lparr>monitor = SetExitStatusCode OK 0 (PtraceMonitor_init False),
                      pid_waiter = PidWaiter_init 100, sandboxee_exited = True,
                      status_var = 0\<rparr>, []))"
    unfolding loop dump by (rule second)
  have k: "(0::int) < kUnknown example_config" by (simp add: example_config_def)
  from k checks wait status handler final show ?thesis by blast
qed

text \<open>
  C6, as amended. For a PidWaiter whose priority PID is a real PID and whose queue holds
  PIDs only:
  \<^item> a refill whose first poll fails stops there, after one call for the priority PID;
    a refill whose first poll does not fail goes on with \<^verbatim>\<open>waitpid(-1)\<close> through every
    answer that names a child and stops at the first answer 0 or -1; it queues the
    children in the order of the answers and keeps the errno of a failing last call;
    and a refill that returns has read answers of one of these two shapes;
  \<^item> \<^verbatim>\<open>Wait\<close> refills only when the queue is empty and no error is pending; it returns
    0 exactly when the queue is then empty with no error pending, -1 (with the pending
    errno, which it clears) exactly when the queue is then empty with an error pending,
    and else the head of the queue, which it removes;
  \<^item> as many calls as the queue is long return the queued pairs in order, one per call,
    without a call to the kernel.
\<close>

theorem PidWaiter_Wait_contract:
  assumes "priority_pid pw \<noteq> - 1" and "\<forall>e\<in>set (statuses pw). 0 < fst e"
  shows
    "(fst first < 0 \<longrightarrow>
        RefillStatuses pw (first # rest) =
          Some (pw\<lparr>statuses := [], last_errno := snd (snd first)\<rparr>, rest, [priority_pid pw]))
     \<and> (0 \<le> fst first \<and> (\<forall>a\<in>set middle. 0 < fst a) \<and> fst t \<le> 0 \<longrightarrow>
        RefillStatuses pw (first # middle @ t # rest) =
          Some (pw\<lparr>statuses := map child_of (filter (\<lambda>a. 0 < fst a) [first]) @ map child_of middle,
                   last_errno := (if fst t < 0 then snd (snd t) else 0)\<rparr>,
                rest, priority_pid pw # replicate (length middle + 1) (- 1)))
     \<and> (RefillStatuses pw answers \<noteq> None \<longrightarrow>
          (\<exists>first1 rest1. fst first1 < 0 \<and> answers = first1 # rest1)
          \<or> (\<exists>first1 middle1 t1 rest1. 0 \<le> fst first1 \<and> (\<forall>a\<in>set middle1. 0 < fst a)
                \<and> fst t1 \<le> 0 \<and> answers = first1 # middle1 @ t1 # rest1))
     \<and> (Wait pw answers = Some (r, pw', rest', calls) \<longrightarrow>
          (\<exists>pw1. (if statuses pw = [] \<and> last_errno pw = 0 then RefillStatuses pw answers
                   else Some (pw, answers, [])) = Some (pw1, rest', calls)
             \<and> (wr_ret r = 0 \<longleftrightarrow> statuses pw1 = [] \<and> last_errno pw1 = 0)
             \<and> (wr_ret r = - 1 \<longleftrightarrow> statuses pw1 = [] \<and> last_errno pw1 \<noteq> 0)
             \<and> (wr_ret r = - 1 \<longrightarrow> wr_errno r = Some (last_errno pw1) \<and> last_errno pw' = 0)
             \<and> (statuses pw1 \<noteq> [] \<longrightarrow>
                   wr_ret r = fst (hd (statuses pw1)) \<and> wr_status r = Some (snd (hd (statuses pw1)))
                   \<and> statuses pw' = tl (statuses pw1) \<and> last_errno pw' = last_errno pw1)
             \<and> (\<forall>e\<in>set (statuses pw'). 0 < fst e)))
     \<and> Wait_times (length (statuses pw)) pw answers =
          Some (map (\<lambda>e. \<lparr>wr_ret = fst e, wr_status = Some (snd e), wr_errno = None\<rparr>) (statuses pw),
                pw\<lparr>statuses := []\<rparr>, answers, [])"
proof (intro conjI impI)
  assume "fst first < 0"
  then show "RefillStatuses pw (first # rest) =
          Some (pw\<lparr>statuses := [], last_errno := snd (snd first)\<rparr>, rest, [priority_pid pw])"
    by (rule RefillStatuses_failed_first)
next
  assume "0 \<le> fst first \<and> (\<forall>a\<in>set middle. 0 < fst a) \<and> fst t \<le> 0"
  then have "0 \<le> fst first" "\<forall>a\<in>set middle. 0 < fst a" "fst t \<le> 0" by simp_all
  from RefillStatuses_burst [OF this(1) assms(1) this(2,3)] show "RefillStatuses pw (first # middle @ t # rest) =
          Some (pw\<lparr>statuses := map child_of (filter (\<lambda>a. 0 < fst a) [first]) @ map child_of middle,
                   last_errno := (if fst t < 0 then snd (snd t) else 0)\<rparr>,
                rest, priority_pid pw # replicate (length middle + 1) (- 1))" .
next
  assume "RefillStatuses pw answers \<noteq> None"
  then obtain pw1 rest1 calls1 where "RefillStatuses pw answers = Some (pw1, rest1, calls1)"
    by (cases "RefillStatuses pw answers") auto
  from RefillStatuses_shape [OF this assms(1)]
  show "(\<exists>first1 rest1. fst first1 < 0 \<and> answers = first1 # rest1)
          \<or> (\<exists>first1 middle1 t1 rest1. 0 \<le> fst first1 \<and> (\<forall>a\<in>set middle1. 0 < fst a)
                \<and> fst t1 \<le> 0 \<and> answers = first1 # middle1 @ t1 # rest1)"
    by blast
next
  assume w: "Wait pw answers = Some (r, pw', rest', calls)"
  let ?pre = "(if statuses pw = [] \<and> last_errno pw = 0 then RefillStatuses pw answers
               else Some (pw, answers, []))"
  from w obtain pw1 where pre: "?pre = Some (pw1, rest', calls)"
    by (auto simp: Wait_def split: option.splits list.splits if_splits)
  have inv1: "\<forall>e\<in>set (statuses pw1). 0 < fst e"
  proof (cases "statuses pw = [] \<and> last_errno pw = 0")
    case False
    with pre assms(2) show ?thesis by auto
  next
    case True
    with pre have rf: "RefillStatuses pw answers = Some (pw1, rest', calls)" by simp
    from RefillStatuses_shape [OF rf assms(1)] show ?thesis
    proof
      assume "\<exists>first. fst first < 0 \<and> answers = first # rest'"
      then obtain first where f: "fst first < 0" "answers = first # rest'" by blast
      from rf f(2) RefillStatuses_failed_first [OF f(1), of pw rest']
      have "pw1 = pw\<lparr>statuses := [], last_errno := snd (snd first)\<rparr>"
        by (simp only: option.inject prod.inject)
      then show ?thesis by simp
    next
      assume "\<exists>first middle t. 0 \<le> fst first \<and> (\<forall>a\<in>set middle. 0 < fst a) \<and> fst t \<le> 0
            \<and> answers = first # middle @ t # rest'"
      then obtain first middle t where f: "0 \<le> fst first" "\<forall>a\<in>set middle. 0 < fst a"
        "fst t \<le> 0" "answers = first # middle @ t # rest'" by blast
      have pos: "\<forall>e\<in>set (map child_of (filter (\<lambda>a. 0 < fst a) [first]) @ map child_of middle).
              0 < fst e"
        using f(2) by (fastforce split: if_splits)
      from rf f(4) RefillStatuses_burst [OF f(1) assms(1) f(2,3), of rest']
      have "pw1 = pw\<lparr>statuses := map child_of (filter (\<lambda>a. 0 < fst a) [first])
                                    @ map child_of middle,
                       last_errno := (if fst t < 0 then snd (snd t) else 0)\<rparr>"
        by (simp only: option.inject prod.inject)
      then have st: "statuses pw1 = map child_of (filter (\<lambda>a. 0 < fst a) [first])
                                    @ map child_of middle"
        by simp
      show ?thesis unfolding st by (rule pos)
    qed
  qed
  from w pre have body: "(case statuses pw1 of
        [] \<Rightarrow> if last_errno pw1 = 0
              then Some (\<lparr>wr_ret = 0, wr_status = None, wr_errno = None\<rparr>, pw1, rest', calls)
              else Some (\<lparr>wr_ret = - 1, wr_status = None, wr_errno = Some (last_errno pw1)\<rparr>,
                         pw1\<lparr>last_errno := 0\<rparr>, rest', calls)
      | e # q \<Rightarrow> Some (\<lparr>wr_ret = fst e, wr_status = Some (snd e), wr_errno = None\<rparr>,
                       pw1\<lparr>statuses := q\<rparr>, rest', calls)) = Some (r, pw', rest', calls)"
    by (simp add: Wait_def)
  show "\<exists>pw1. ?pre = Some (pw1, rest', calls)
             \<and> (wr_ret r = 0 \<longleftrightarrow> statuses pw1 = [] \<and> last_errno pw1 = 0)
             \<and> (wr_ret r = - 1 \<longleftrightarrow> statuses pw1 = [] \<and> last_errno pw1 \<noteq> 0)
             \<and> (wr_ret r = - 1 \<longrightarrow> wr_errno r = Some (last_errno pw1) \<and> last_errno pw' = 0)
             \<and> (statuses pw1 \<noteq> [] \<longrightarrow>
                   wr_ret r = fst (hd (statuses pw1)) \<and> wr_status r = Some (snd (hd (statuses pw1)))
                   \<and> statuses pw' = tl (statuses pw1) \<and> last_errno pw' = last_errno pw1)
             \<and> (\<forall>e\<in>set (statuses pw'). 0 < fst e)"
  proof (cases "statuses pw1")
    case Nil
    with body pre show ?thesis
      by (intro exI [of _ pw1]) (auto split: if_splits)
  next
    case (Cons e q)
    with inv1 have "0 < fst e" "\<forall>e\<in>set q. 0 < fst e" by simp_all
    with Cons body pre show ?thesis
      by (intro exI [of _ pw1]) auto
  qed
next
  show "Wait_times (length (statuses pw)) pw answers =
          Some (map (\<lambda>e. \<lparr>wr_ret = fst e, wr_status = Some (snd e), wr_errno = None\<rparr>) (statuses pw),
                pw\<lparr>statuses := []\<rparr>, answers, [])"
    by (rule Wait_times_drain) simp
qed


text \<open>
  The priority PID 100 and PID 101 are ready, then nothing: both are queued in that order
  after three calls, and \<^verbatim>\<open>Wait\<close> returns PID 100 first.
\<close>

theorem PidWaiter_Wait_contract_witness:
  "priority_pid (PidWaiter_init 100) \<noteq> - 1
   \<and> RefillStatuses (PidWaiter_init 100) [(100, 0, 0), (101, 0x57F, 0), (0, 0, 0)]
       = Some (\<lparr>priority_pid = 100, statuses = [(100, 0), (101, 0x57F)], last_errno = 0\<rparr>,
               [], [100, - 1, - 1])
   \<and> Wait (PidWaiter_init 100) [(100, 0, 0), (101, 0x57F, 0), (0, 0, 0)]
       = Some (\<lparr>wr_ret = 100, wr_status = Some 0, wr_errno = None\<rparr>,
               \<lparr>priority_pid = 100, statuses = [(101, 0x57F)], last_errno = 0\<rparr>,
               [], [100, - 1, - 1])"
proof -
  have w: "Wait (PidWaiter_init 100) [(100, 0, 0), (101, 0x57F, 0), (0, 0, 0)]
       = Some (\<lparr>wr_ret = 100, wr_status = Some 0, wr_errno = None\<rparr>,
               \<lparr>priority_pid = 100, statuses = [(101, 0x57F)], last_errno = 0\<rparr>,
               [], [100, - 1, - 1])"
    by (simp add: Wait_def RefillStatuses_def PidWaiter_init_def)
  have p: "priority_pid (PidWaiter_init 100) \<noteq> - 1"
    and q: "\<forall>e\<in>set (statuses (PidWaiter_init 100)). 0 < fst e"
    by (simp_all add: PidWaiter_init_def)
  from PidWaiter_Wait_contract [OF p q, where first = "(100, 0, 0)"
      and middle = "[(101, 0x57F, 0)]" and t = "(0, 0, 0)" and rest = "[]"]
  have "RefillStatuses (PidWaiter_init 100) [(100, 0, 0), (101, 0x57F, 0), (0, 0, 0)]
       = Some (\<lparr>priority_pid = 100, statuses = [(100, 0), (101, 0x57F)], last_errno = 0\<rparr>,
               [], [100, - 1, - 1])"
    by (simp add: PidWaiter_init_def)
  with w p show ?thesis by blast
qed

text \<open>
  C6 as stated fails: PID 100 is ready and the next \<^verbatim>\<open>waitpid\<close> fails with ECHILD. The
  last non-blocking call failed, yet \<^verbatim>\<open>Wait\<close> returns PID 100, not -1; the error is
  returned by the call after, when the queue is empty.
\<close>

theorem Wait_defers_error_counterexample:
  "Wait (PidWaiter_init 100) [(100, 0, 0), (- 1, 0, ECHILD)]
     = Some (\<lparr>wr_ret = 100, wr_status = Some 0, wr_errno = None\<rparr>,
             \<lparr>priority_pid = 100, statuses = [], last_errno = ECHILD\<rparr>, [], [100, - 1])
   \<and> Wait \<lparr>priority_pid = 100, statuses = [], last_errno = ECHILD\<rparr> []
     = Some (\<lparr>wr_ret = - 1, wr_status = None, wr_errno = Some ECHILD\<rparr>,
             \<lparr>priority_pid = 100, statuses = [], last_errno = 0\<rparr>, [], [])"
  by (simp add: Wait_def RefillStatuses_def PidWaiter_init_def ECHILD_def)

text \<open>
  C5. A \<^verbatim>\<open>PTRACE_SEIZE\<close> that fails with EPERM should be retried until the two seconds
  are spent. With the clock still at the start of the budget, the one task's EPERM makes
  the attach fail after a single attempt, with no pause and no retry: the test
  \<^verbatim>\<open>absl::Now() < deadline\<close> is the wrong way round. With the clock already past the
  deadline the same EPERM is retried (the pause is negative) and the attach succeeds.
\<close>

theorem InitPtraceAttach_EPERM_not_retried:
  "InitPtraceAttach example_config
       (example_setup\<lparr>seize := (\<lambda>round task. if round = 0 then EPERM else 0)\<rparr>)
       (Suc (Suc (Suc 0)))
     = Some (False, [Seize 100])
   \<and> InitPtraceAttach example_config
       (example_setup\<lparr>seize := (\<lambda>round task. if round = 0 then EPERM else 0),
                       now := (\<lambda>k. if k = 0 then 0 else 5000)\<rparr>)
       (Suc (Suc (Suc 0)))
     = Some (True, [Seize 100, SleepFor (- 3000), Seize 100])"
  by (simp add: InitPtraceAttach_def example_config_def example_setup_def EPERM_def ESRCH_def
      Let_def)

section \<open>Properties of symbolization\<close>

text \<open>
  C7. An address that is exactly a key of the map should symbolize to the demangled
  symbol stored there. At the smallest key the lookup gives the empty string instead:
  \<^verbatim>\<open>lower_bound\<close> is \<^verbatim>\<open>begin()\<close>, and the exact-match test sits inside the guard that
  excludes \<^verbatim>\<open>begin()\<close>. The same key further up the map is found.
\<close>

theorem GetSymbolAt_first_key_empty:
  "GetSymbolAt (\<lambda>_. None) [(0x1000, ''main''), (0x2000, ''helper''), (0x3000, '''')] 0x1000 = ''''
   \<and> GetSymbolAt (\<lambda>_. None) [(0x1000, ''main''), (0x2000, ''helper''), (0x3000, '''')] 0x2000 = ''helper''"
  by (simp add: GetSymbolAt_def lower_bound_def DemangleSymbol_def)


subsection \<open>The map that LoadSymbolsMap builds\<close>

lemma map_of_map_assign: "map_of (map_assign k v m) = (map_of m)(k \<mapsto> v)"
  by (induction m) (auto simp: fun_eq_iff)

lemma keys_map_assign: "fst ` set (map_assign k v m) = insert k (fst ` set m)"
  by (simp add: dom_map_of_conv_image_fst [symmetric] map_of_map_assign)

lemma keys_sorted_map_assign: "keys_sorted m \<Longrightarrow> keys_sorted (map_assign k v m)"
proof (induction m)
  case Nil
  then show ?case by simp
next
  case (Cons e m)
  obtain k' v' where e: "e = (k', v')" by (cases e)
  from Cons.prems have tl: "keys_sorted m" and hd: "\<forall>x\<in>set m. k' < fst x"
    by (auto simp: e)
  show ?case
  proof (cases "k < k'")
    case True
    with Cons.prems e hd show ?thesis by auto
  next
    case False
    show ?thesis
    proof (cases "k = k'")
      case True
      with Cons.prems e show ?thesis by auto
    next
      case neq: False
      with False have "k' < k" by simp
      moreover have "\<forall>x\<in>set (map_assign k v m). k' < fst x"
      proof
        fix x assume "x \<in> set (map_assign k v m)"
        then have "fst x \<in> insert k (fst ` set m)" using keys_map_assign [of k v m] by blast
        with hd \<open>k' < k\<close> show "k' < fst x" by auto
      qed
      ultimately show ?thesis using False neq e Cons.IH [OF tl] by simp
    qed
  qed
qed

lemma key_iff_map_of: "k \<in> fst ` set m \<longleftrightarrow> map_of m k \<noteq> None"
  by (simp add: map_of_eq_None_iff)

lemma GetSymbolAt_floor:
  assumes sorted: "keys_sorted m"
    and lo: "map_of m lo = Some v" "lo < a"
    and hi: "a \<le> hi" "map_of m hi \<noteq> None"
    and gap: "\<And>k. lo < k \<Longrightarrow> k \<le> a \<Longrightarrow> map_of m k = None"
  shows "GetSymbolAt cxa m a =
           (if v \<noteq> [] then DemangleSymbol cxa v @ ''+0x'' @ Hex (a - lo) else [])"
proof -
  from lo(1) have "(lo, v) \<in> set m" by (rule map_of_SomeD)
  then obtain xs ys where m: "m = xs @ (lo, v) # ys" by (auto dest: split_list)
  from sorted have below: "\<forall>x\<in>set xs. fst x < lo" and above: "\<forall>y\<in>set ys. lo < fst y"
    by (auto simp: m sorted_wrt_append)
  have far: "\<forall>y\<in>set ys. a < fst y"
  proof
    fix y assume y: "y \<in> set ys"
    then have "fst y \<in> fst ` set m" by (auto simp: m)
    then have "map_of m (fst y) \<noteq> None" by (simp add: key_iff_map_of)
    with gap [of "fst y"] above y show "a < fst y" by (metis not_le_imp_less)
  qed
  from hi(2) have "hi \<in> fst ` set m" by (simp add: key_iff_map_of)
  then have "hi \<in> fst ` set xs \<or> hi = lo \<or> hi \<in> fst ` set ys" by (auto simp: m)
  with below lo(2) hi(1) have "hi \<in> fst ` set ys" by auto
  then obtain y ys' where ys: "ys = y # ys'" by (cases ys) auto
  with far have y: "a < fst y" by simp
  from below lo(2) have "\<And>x. x \<in> set xs \<Longrightarrow> fst x < a" by fastforce
  then have "takeWhile (\<lambda>e. fst e < a) (xs @ (lo, v) # y # ys')
               = xs @ takeWhile (\<lambda>e. fst e < a) ((lo, v) # y # ys')"
    by (rule takeWhile_append2)
  with lo(2) y have "takeWhile (\<lambda>e. fst e < a) m = xs @ [(lo, v)]"
    by (simp add: m ys)
  then have lb: "lower_bound m a = length xs + 1" by (simp add: lower_bound_def)
  have len: "length m = length xs + 2 + length ys'" by (simp add: m ys)
  have nxt: "m ! (length xs + 1) = y" by (simp add: m ys nth_append)
  have prv: "m ! length xs = (lo, v)" by (simp add: m)
  from y have "fst y \<noteq> a" by simp
  with lb len nxt prv show ?thesis
    by (simp add: GetSymbolAt_def Let_def)
qed


lemma GetSymbolAt_exact:
  assumes sorted: "keys_sorted m"
    and at: "map_of m a = Some v"
    and lower: "k < a" "map_of m k \<noteq> None"
  shows "GetSymbolAt cxa m a = DemangleSymbol cxa v"
proof -
  from at have "(a, v) \<in> set m" by (rule map_of_SomeD)
  then obtain xs ys where m: "m = xs @ (a, v) # ys" by (auto dest: split_list)
  from sorted have below: "\<forall>x\<in>set xs. fst x < a" and above: "\<forall>y\<in>set ys. a < fst y"
    by (auto simp: m sorted_wrt_append)
  from lower(2) have "k \<in> fst ` set m" by (simp add: key_iff_map_of)
  then have "k \<in> fst ` set xs \<or> k = a \<or> k \<in> fst ` set ys" by (auto simp: m)
  with above lower(1) have "k \<in> fst ` set xs" by auto
  then have ne: "xs \<noteq> []" by auto
  from below have "\<And>x. x \<in> set xs \<Longrightarrow> fst x < a" by simp
  then have "takeWhile (\<lambda>e. fst e < a) (xs @ (a, v) # ys)
               = xs @ takeWhile (\<lambda>e. fst e < a) ((a, v) # ys)"
    by (rule takeWhile_append2)
  then have lb: "lower_bound m a = length xs" by (simp add: lower_bound_def m)
  have len: "length m = length xs + 1 + length ys" by (simp add: m)
  have nxt: "m ! length xs = (a, v)" by (simp add: m)
  from lb len nxt ne show ?thesis
    by (simp add: GetSymbolAt_def Let_def)
qed

lemma relocated_in_range:
  fixes s e p x :: uint64
  assumes "s < e" "p \<le> x" "x - p < e - s"
  shows "s \<le> x + s - p \<and> x + s - p < e"
proof -
  have eq: "x + s - p = s + (x - p)" by simp
  from assms have "unat (x - p) < unat e - unat s"
    by (simp add: word_less_nat_alt unat_sub word_le_nat_alt less_imp_le)
  then have sum: "unat s + unat (x - p) < unat e" by arith
  also have "unat e < 2 ^ 64" using unsigned_less [of e] by simp
  finally have "unat (s + (x - p)) = unat s + unat (x - p)"
    by (simp add: unat_add_lem [THEN iffD1])
  with sum show ?thesis
    unfolding eq by (simp add: word_less_nat_alt word_le_nat_alt)
qed

lemma symbol_key_range:
  assumes "me_start entry < me_end entry" "symbol_key arm elf entry symbol = Some k"
  shows "me_start entry \<le> k \<and> k < me_end entry"
  using assms relocated_in_range [of "me_start entry" "me_end entry" "me_pgoff entry"
      "sym_address symbol"]
  by (auto simp: symbol_key_def split: if_splits)

lemma fold_symbols:
  "keys_sorted m \<Longrightarrow>
   keys_sorted (fold (LoadSymbolsMap_symbol arm elf entry) syms m)
   \<and> (\<forall>k. (\<forall>symbol\<in>set syms. symbol_key arm elf entry symbol \<noteq> Some k) \<longrightarrow>
          map_of (fold (LoadSymbolsMap_symbol arm elf entry) syms m) k = map_of m k)
   \<and> (\<forall>k. map_of m k \<noteq> None \<longrightarrow>
          map_of (fold (LoadSymbolsMap_symbol arm elf entry) syms m) k \<noteq> None)"
proof (induction syms arbitrary: m)
  case Nil
  then show ?case by simp
next
  case (Cons symbol syms)
  let ?m1 = "LoadSymbolsMap_symbol arm elf entry symbol m"
  have s1: "keys_sorted ?m1"
    using Cons.prems by (simp add: LoadSymbolsMap_symbol_def keys_sorted_map_assign split: option.splits)
  have f1: "\<And>k. symbol_key arm elf entry symbol \<noteq> Some k \<Longrightarrow> map_of ?m1 k = map_of m k"
    by (auto simp: LoadSymbolsMap_symbol_def map_of_map_assign split: option.splits)
  have g1: "\<And>k. map_of m k \<noteq> None \<Longrightarrow> map_of ?m1 k \<noteq> None"
    by (auto simp: LoadSymbolsMap_symbol_def map_of_map_assign split: option.splits)
  from Cons.IH [OF s1] f1 g1 show ?case by simp
qed

lemma entry_skipped: "\<not> accepted entry \<Longrightarrow> LoadSymbolsMap_entry arm parse_elf entry m = m"
  by (simp add: LoadSymbolsMap_entry_def)

lemma entry_sorted:
  "keys_sorted m \<Longrightarrow> keys_sorted (LoadSymbolsMap_entry arm parse_elf entry m)"
  using fold_symbols
  by (auto simp: LoadSymbolsMap_entry_def Let_def keys_sorted_map_assign split: option.splits)

lemma entry_grows:
  assumes "keys_sorted m" "map_of m k \<noteq> None"
  shows "map_of (LoadSymbolsMap_entry arm parse_elf entry m) k \<noteq> None"
proof (cases "accepted entry")
  case False
  with assms show ?thesis by (simp add: entry_skipped)
next
  case True
  let ?m2 = "map_assign (me_end entry) [] (map_assign (me_start entry) (map_name entry) m)"
  have s2: "keys_sorted ?m2" using assms(1) by (simp add: keys_sorted_map_assign)
  have g2: "map_of ?m2 k \<noteq> None" using assms(2) by (simp add: map_of_map_assign)
  show ?thesis
  proof (cases "parse_elf (me_path entry)")
    case None
    with True g2 show ?thesis by (simp add: LoadSymbolsMap_entry_def Let_def)
  next
    case (Some elf)
    from fold_symbols [OF s2, of arm elf entry "symbols elf"] g2
    have "map_of (fold (LoadSymbolsMap_symbol arm elf entry) (symbols elf) ?m2) k \<noteq> None"
      by blast
    with True Some show ?thesis by (simp add: LoadSymbolsMap_entry_def Let_def)
  qed
qed

lemma entry_frame:
  assumes "keys_sorted m" "me_start entry < me_end entry" "k < me_start entry \<or> me_end entry < k"
  shows "map_of (LoadSymbolsMap_entry arm parse_elf entry m) k = map_of m k"
proof (cases "accepted entry")
  case False
  then show ?thesis by (simp add: entry_skipped)
next
  case True
  let ?m2 = "map_assign (me_end entry) [] (map_assign (me_start entry) (map_name entry) m)"
  have s2: "keys_sorted ?m2" using assms(1) by (simp add: keys_sorted_map_assign)
  have f2: "map_of ?m2 k = map_of m k" using assms(2,3) by (auto simp: map_of_map_assign)
  show ?thesis
  proof (cases "parse_elf (me_path entry)")
    case None
    with True f2 show ?thesis by (simp add: LoadSymbolsMap_entry_def Let_def)
  next
    case (Some elf)
    have "\<forall>symbol\<in>set (symbols elf). symbol_key arm elf entry symbol \<noteq> Some k"
      using symbol_key_range [OF assms(2)] assms(3) by fastforce
    with fold_symbols [OF s2, of arm elf entry "symbols elf"] f2
    have "map_of (fold (LoadSymbolsMap_symbol arm elf entry) (symbols elf) ?m2) k = map_of m k"
      by simp
    with True Some show ?thesis by (simp add: LoadSymbolsMap_entry_def Let_def)
  qed
qed

lemma entry_own:
  assumes "keys_sorted m" "accepted entry" "me_start entry < me_end entry"
    and sym: "\<And>elf symbol addr. parse_elf (me_path entry) = Some elf \<Longrightarrow>
                symbol \<in> set (symbols elf) \<Longrightarrow>
                symbol_key arm elf entry symbol = Some addr \<Longrightarrow> a < addr"
    and a: "me_start entry \<le> a" "a < me_end entry"
    and k: "k = me_start entry \<or> (me_start entry < k \<and> k \<le> a)"
  shows "map_of (LoadSymbolsMap_entry arm parse_elf entry m) k =
           (if k = me_start entry then Some (map_name entry) else map_of m k)"
proof -
  let ?m2 = "map_assign (me_end entry) [] (map_assign (me_start entry) (map_name entry) m)"
  have s2: "keys_sorted ?m2" using assms(1) by (simp add: keys_sorted_map_assign)
  have f2: "map_of ?m2 k = (if k = me_start entry then Some (map_name entry) else map_of m k)"
    using assms(3) a k by (auto simp: map_of_map_assign)
  show ?thesis
  proof (cases "parse_elf (me_path entry)")
    case None
    with assms(2) f2 show ?thesis by (simp add: LoadSymbolsMap_entry_def Let_def)
  next
    case (Some elf)
    have "\<forall>symbol\<in>set (symbols elf). symbol_key arm elf entry symbol \<noteq> Some k"
      using sym [OF Some] a k by fastforce
    with fold_symbols [OF s2, of arm elf entry "symbols elf"] f2
    have "map_of (fold (LoadSymbolsMap_symbol arm elf entry) (symbols elf) ?m2) k =
            (if k = me_start entry then Some (map_name entry) else map_of m k)"
      by simp
    with assms(2) Some show ?thesis by (simp add: LoadSymbolsMap_entry_def Let_def)
  qed
qed

lemma entry_end_key:
  assumes "keys_sorted m" "accepted entry"
  shows "map_of (LoadSymbolsMap_entry arm parse_elf entry m) (me_end entry) \<noteq> None"
proof -
  let ?m2 = "map_assign (me_end entry) [] (map_assign (me_start entry) (map_name entry) m)"
  have s2: "keys_sorted ?m2" using assms(1) by (simp add: keys_sorted_map_assign)
  have g2: "map_of ?m2 (me_end entry) \<noteq> None" by (simp add: map_of_map_assign)
  show ?thesis
  proof (cases "parse_elf (me_path entry)")
    case None
    with assms(2) g2 show ?thesis by (simp add: LoadSymbolsMap_entry_def Let_def)
  next
    case (Some elf)
    from fold_symbols [OF s2, of arm elf entry "symbols elf"] g2
    have "map_of (fold (LoadSymbolsMap_symbol arm elf entry) (symbols elf) ?m2) (me_end entry)
            \<noteq> None" by blast
    with assms(2) Some show ?thesis by (simp add: LoadSymbolsMap_entry_def Let_def)
  qed
qed

lemma fold_entries_sorted:
  "keys_sorted m \<Longrightarrow> keys_sorted (fold (LoadSymbolsMap_entry arm parse_elf) entries m)"
  by (induction entries arbitrary: m) (simp_all add: entry_sorted)

lemma fold_entries_grows:
  "keys_sorted m \<Longrightarrow> map_of m k \<noteq> None \<Longrightarrow>
   map_of (fold (LoadSymbolsMap_entry arm parse_elf) entries m) k \<noteq> None"
proof (induction entries arbitrary: m)
  case Nil
  then show ?case by simp
next
  case (Cons entry entries)
  have "keys_sorted (LoadSymbolsMap_entry arm parse_elf entry m)"
    using Cons.prems(1) by (rule entry_sorted)
  moreover have "map_of (LoadSymbolsMap_entry arm parse_elf entry m) k \<noteq> None"
    using Cons.prems by (rule entry_grows)
  ultimately have "map_of (fold (LoadSymbolsMap_entry arm parse_elf) entries
                     (LoadSymbolsMap_entry arm parse_elf entry m)) k \<noteq> None"
    by (rule Cons.IH)
  then show ?case by simp
qed

lemma fold_entries_frame:
  "keys_sorted m \<Longrightarrow>
   \<forall>entry\<in>set entries. me_start entry < me_end entry
      \<and> (k < me_start entry \<or> me_end entry < k) \<Longrightarrow>
   map_of (fold (LoadSymbolsMap_entry arm parse_elf) entries m) k = map_of m k"
  by (induction entries arbitrary: m) (simp_all add: entry_sorted entry_frame)


lemma map_name_nonempty: "map_name entry \<noteq> []"
  by (simp add: map_name_def Let_def)

text \<open>
  C10, as amended. Let the entries of the maps file be in ascending order without
  overlap, none empty. For a region that \<^verbatim>\<open>LoadSymbolsMap\<close> accepts (executable,
  file-backed, with a path, not deleted) the map it returns holds \<open>map:<path>\<close> (with
  \<open>+0x<pgoff>\<close> for a page offset other than 0) at the region's start and has a key at
  the region's end. An address of the region that is below every symbol stored for the
  region symbolizes as follows: strictly above the start, to the (demangled) map name
  followed by \<open>+0x\<close> and the offset from the start, which is not the empty string; at
  the start itself, when the map has a smaller key, to the (demangled) map name with
  nothing after it.
\<close>

theorem LoadSymbolsMap_region_start_name:
  assumes maps: "read_maps pid = Inr maps" "maps_ordered maps"
    and entry: "entry \<in> set maps" "accepted entry"
    and a: "me_start entry \<le> a" "a < me_end entry"
    and below: "\<forall>elf symbol addr. parse_elf (me_path entry) = Some elf
                  \<and> symbol \<in> set (symbols elf)
                  \<and> symbol_key host_is_arm elf entry symbol = Some addr \<longrightarrow> a < addr"
  shows "\<exists>m. LoadSymbolsMap host_is_arm read_maps parse_elf pid = Inr m
           \<and> map_of m (me_start entry) = Some (map_name entry)
           \<and> map_of m (me_end entry) \<noteq> None
           \<and> (me_start entry < a \<longrightarrow>
                GetSymbolAt cxa m a
                  = DemangleSymbol cxa (map_name entry) @ ''+0x'' @ Hex (a - me_start entry)
                \<and> GetSymbolAt cxa m a \<noteq> [])
           \<and> (a = me_start entry \<and> (\<exists>k. k < me_start entry \<and> map_of m k \<noteq> None) \<longrightarrow>
                GetSymbolAt cxa m a = DemangleSymbol cxa (map_name entry))"
proof -
  let ?f = "LoadSymbolsMap_entry host_is_arm parse_elf"
  from below have sym: "\<And>elf symbol addr. parse_elf (me_path entry) = Some elf \<Longrightarrow>
                symbol \<in> set (symbols elf) \<Longrightarrow>
                symbol_key host_is_arm elf entry symbol = Some addr \<Longrightarrow> a < addr"
    by blast
  from entry(1) obtain before after where split: "maps = before @ entry # after"
    by (auto dest: split_list)
  from maps(2) have nonempty: "\<forall>e\<in>set maps. me_start e < me_end e"
    and order: "sorted_wrt (\<lambda>e later. me_end e \<le> me_start later) maps"
    by (simp_all add: maps_ordered_def list_all_iff)
  from order have bef: "\<forall>b\<in>set before. me_end b \<le> me_start entry"
    and aft: "\<forall>c\<in>set after. me_end entry \<le> me_start c"
    by (auto simp: split sorted_wrt_append)
  from nonempty have ne: "me_start entry < me_end entry"
    and ne_bef: "\<forall>b\<in>set before. me_start b < me_end b"
    and ne_aft: "\<forall>c\<in>set after. me_start c < me_end c"
    by (auto simp: split)
  define m0 where "m0 = fold ?f before []"
  define m1 where "m1 = ?f entry m0"
  define m2 where "m2 = fold ?f after m1"
  have load: "LoadSymbolsMap host_is_arm read_maps parse_elf pid = Inr m2"
    by (simp add: LoadSymbolsMap_def maps(1) split m0_def m1_def m2_def)
  have s0: "keys_sorted m0" unfolding m0_def by (rule fold_entries_sorted) simp
  then have s1: "keys_sorted m1" unfolding m1_def by (rule entry_sorted)
  then have s2: "keys_sorted m2" unfolding m2_def by (rule fold_entries_sorted)
  have none0: "map_of m0 k = None" if "me_start entry < k" for k
  proof -
    have "\<forall>b\<in>set before. me_start b < me_end b \<and> (k < me_start b \<or> me_end b < k)"
      using bef ne_bef that by fastforce
    then have "map_of (fold ?f before []) k = map_of [] k"
      by (intro fold_entries_frame) simp_all
    then show ?thesis by (simp add: m0_def)
  qed
  have own1: "map_of m1 k = (if k = me_start entry then Some (map_name entry) else None)"
    if "k = me_start entry \<or> (me_start entry < k \<and> k \<le> a)" for k
  proof -
    have "map_of (?f entry m0) k =
            (if k = me_start entry then Some (map_name entry) else map_of m0 k)"
      using s0 entry(2) ne sym a that by (rule entry_own)
    with that none0 [of k] show ?thesis by (auto simp: m1_def)
  qed
  have end1: "map_of m1 (me_end entry) \<noteq> None"
    unfolding m1_def using s0 entry(2) by (rule entry_end_key)
  have same2: "map_of m2 k = map_of m1 k" if "k \<le> a" for k
  proof -
    have "\<forall>c\<in>set after. me_start c < me_end c \<and> (k < me_start c \<or> me_end c < k)"
      using aft ne_aft that a(2) by fastforce
    with s1 show ?thesis unfolding m2_def by (rule fold_entries_frame)
  qed
  have start2: "map_of m2 (me_start entry) = Some (map_name entry)"
    using same2 [of "me_start entry"] own1 [of "me_start entry"] a(1) by simp
  have end2: "map_of m2 (me_end entry) \<noteq> None"
    unfolding m2_def using s1 end1 by (rule fold_entries_grows)
  have gap2: "map_of m2 k = None" if "me_start entry < k" "k \<le> a" for k
    using same2 [OF that(2)] own1 [of k] that by simp
  have inside: "GetSymbolAt cxa m2 a
                  = DemangleSymbol cxa (map_name entry) @ ''+0x'' @ Hex (a - me_start entry)
                \<and> GetSymbolAt cxa m2 a \<noteq> []" if strict: "me_start entry < a"
  proof -
    have "GetSymbolAt cxa m2 a =
          (if map_name entry \<noteq> [] then
             DemangleSymbol cxa (map_name entry) @ ''+0x'' @ Hex (a - me_start entry)
           else [])"
      using s2 start2 strict _ end2 gap2
    proof (rule GetSymbolAt_floor)
      show "a \<le> me_end entry" using a(2) by simp
    qed
    then show ?thesis by (simp add: map_name_nonempty)
  qed
  have at_start: "GetSymbolAt cxa m2 a = DemangleSymbol cxa (map_name entry)"
    if st: "a = me_start entry" and ex: "\<exists>k. k < me_start entry \<and> map_of m2 k \<noteq> None"
  proof -
    from ex obtain k where k: "k < me_start entry" "map_of m2 k \<noteq> None" by blast
    have "GetSymbolAt cxa m2 (me_start entry) = DemangleSymbol cxa (map_name entry)"
      using s2 start2 k by (rule GetSymbolAt_exact)
    with st show ?thesis by simp
  qed
  from load start2 end2 inside at_start show ?thesis by blast
qed

text \<open>
  \<^verbatim>\<open>/bin/x\<close> with \<^verbatim>\<open>main\<close> at 0x1800: the address 0x1010 is below \<^verbatim>\<open>main\<close> and
  symbolizes to \<^verbatim>\<open>map:/bin/x+0x10\<close>. With \<^verbatim>\<open>/lib/y\<close> mapped after \<^verbatim>\<open>/bin/x\<close>, neither
  with readable symbols, the start 0x3000 of \<^verbatim>\<open>/lib/y\<close> symbolizes to \<^verbatim>\<open>map:/lib/y\<close>.
\<close>

theorem LoadSymbolsMap_region_start_name_witness:
  "maps_ordered [example_entry] \<and> accepted example_entry
   \<and> LoadSymbolsMap False (\<lambda>p. Inr [example_entry]) (\<lambda>path. Some example_elf) 1
       = Inr [(0x1000, ''map:/bin/x''), (0x1800, ''main''), (0x2000, [])]
   \<and> GetSymbolAt (\<lambda>name. None) [(0x1000, ''map:/bin/x''), (0x1800, ''main''), (0x2000, [])]
        0x1010 = ''map:/bin/x+0x10''
   \<and> maps_ordered [example_entry, example_entry2] \<and> accepted example_entry2
   \<and> LoadSymbolsMap False (\<lambda>p. Inr [example_entry, example_entry2]) (\<lambda>path. None) 1
       = Inr [(0x1000, ''map:/bin/x''), (0x2000, []), (0x3000, ''map:/lib/y''), (0x4000, [])]
   \<and> GetSymbolAt (\<lambda>name. None)
        [(0x1000, ''map:/bin/x''), (0x2000, []), (0x3000, ''map:/lib/y''), (0x4000, [])] 0x3000
       = ''map:/lib/y''"
proof -
  have ordered: "maps_ordered [example_entry]"
    by (simp add: maps_ordered_def example_entry_def)
  have acc: "accepted example_entry"
    by (simp add: accepted_def example_entry_def EndsWith_def)
  have load: "LoadSymbolsMap False (\<lambda>p. Inr [example_entry]) (\<lambda>path. Some example_elf) 1
       = Inr [(0x1000, ''map:/bin/x''), (0x1800, ''main''), (0x2000, [])]"
    by (simp add: LoadSymbolsMap_def LoadSymbolsMap_entry_def LoadSymbolsMap_symbol_def
        symbol_key_def accepted_def EndsWith_def map_name_def example_entry_def
        example_elf_def Let_def)
  have sym: "\<forall>elf symbol addr.
      (\<lambda>path. Some example_elf) (me_path example_entry) = Some elf
      \<and> symbol \<in> set (symbols elf)
      \<and> symbol_key False elf example_entry symbol = Some addr \<longrightarrow> (0x1010 :: uint64) < addr"
    by (auto simp: example_elf_def symbol_key_def example_entry_def split: if_splits)
  have lo: "me_start example_entry \<le> 0x1010" and hi: "0x1010 < me_end example_entry"
    and strict: "me_start example_entry < 0x1010"
    by (simp_all add: example_entry_def)
  have rd: "(\<lambda>p. Inr [example_entry]) (1::int) = (Inr [example_entry] :: string + MapsEntry list)"
    and mem: "example_entry \<in> set [example_entry]"
    by simp_all
  from LoadSymbolsMap_region_start_name [where read_maps = "\<lambda>p. Inr [example_entry]"
      and pid = 1 and maps = "[example_entry]" and entry = example_entry and a = "0x1010"
      and parse_elf = "\<lambda>path. Some example_elf" and host_is_arm = False
      and cxa = "\<lambda>name. None", OF rd ordered mem acc lo hi sym] strict
  obtain m where "LoadSymbolsMap False (\<lambda>p. Inr [example_entry]) (\<lambda>path. Some example_elf) 1
                    = Inr m"
    and "GetSymbolAt (\<lambda>name. None) m 0x1010
           = DemangleSymbol (\<lambda>name. None) (map_name example_entry) @ ''+0x''
               @ Hex (0x1010 - me_start example_entry)"
    by auto
  with load have "GetSymbolAt (\<lambda>name. None)
        [(0x1000, ''map:/bin/x''), (0x1800, ''main''), (0x2000, [])] 0x1010
      = DemangleSymbol (\<lambda>name. None) (map_name example_entry) @ ''+0x''
          @ Hex (0x1010 - me_start example_entry)"
    by simp
  also have "\<dots> = ''map:/bin/x+0x10''"
    by (simp add: DemangleSymbol_def map_name_def example_entry_def Let_def Hex_def
        Hex_nat.simps hex_digit_def)
  finally have inside: "GetSymbolAt (\<lambda>name. None)
        [(0x1000, ''map:/bin/x''), (0x1800, ''main''), (0x2000, [])] 0x1010 = ''map:/bin/x+0x10''" .
  have ordered2: "maps_ordered [example_entry, example_entry2]"
    by (simp add: maps_ordered_def example_entry_def example_entry2_def)
  have acc2: "accepted example_entry2"
    by (simp add: accepted_def example_entry2_def EndsWith_def)
  have load2: "LoadSymbolsMap False (\<lambda>p. Inr [example_entry, example_entry2]) (\<lambda>path. None) 1
       = Inr [(0x1000, ''map:/bin/x''), (0x2000, []), (0x3000, ''map:/lib/y''), (0x4000, [])]"
    by (simp add: LoadSymbolsMap_def LoadSymbolsMap_entry_def accepted_def EndsWith_def
        map_name_def example_entry_def example_entry2_def Let_def)
  have sym2: "\<forall>elf symbol addr.
      (\<lambda>path. None) (me_path example_entry2) = Some elf
      \<and> symbol \<in> set (symbols elf)
      \<and> symbol_key False elf example_entry2 symbol = Some addr \<longrightarrow> me_start example_entry2 < addr"
    by simp
  have rd2: "(\<lambda>p. Inr [example_entry, example_entry2]) (1::int)
       = (Inr [example_entry, example_entry2] :: string + MapsEntry list)"
    and mem2: "example_entry2 \<in> set [example_entry, example_entry2]"
    and lo2: "me_start example_entry2 \<le> me_start example_entry2"
    and hi2: "me_start example_entry2 < me_end example_entry2"
    by (simp_all add: example_entry2_def)
  from LoadSymbolsMap_region_start_name [where read_maps = "\<lambda>p. Inr [example_entry, example_entry2]"
      and pid = 1 and maps = "[example_entry, example_entry2]" and entry = example_entry2
      and a = "me_start example_entry2"
      and parse_elf = "\<lambda>path. None" and host_is_arm = False
      and cxa = "\<lambda>name. None", OF rd2 ordered2 mem2 acc2 lo2 hi2 sym2]
  obtain m where m: "LoadSymbolsMap False (\<lambda>p. Inr [example_entry, example_entry2]) (\<lambda>path. None) 1
                    = Inr m"
    and at: "(\<exists>k. k < me_start example_entry2 \<and> map_of m k \<noteq> None) \<longrightarrow>
          GetSymbolAt (\<lambda>name. None) m (me_start example_entry2)
           = DemangleSymbol (\<lambda>name. None) (map_name example_entry2)"
    by auto
  from m load2 have meq:
    "m = [(0x1000, ''map:/bin/x''), (0x2000, []), (0x3000, ''map:/lib/y''), (0x4000, [])]"
    by simp
  have "(0x1000 :: uint64) < me_start example_entry2 \<and> map_of m 0x1000 \<noteq> None"
    by (simp add: meq example_entry2_def)
  then have "\<exists>k. k < me_start example_entry2 \<and> map_of m k \<noteq> None" by blast
  with at have "GetSymbolAt (\<lambda>name. None) m (me_start example_entry2)
           = DemangleSymbol (\<lambda>name. None) (map_name example_entry2)" by blast
  then have start: "GetSymbolAt (\<lambda>name. None)
        [(0x1000, ''map:/bin/x''), (0x2000, []), (0x3000, ''map:/lib/y''), (0x4000, [])] 0x3000
       = ''map:/lib/y''"
    by (simp add: meq DemangleSymbol_def map_name_def example_entry2_def Let_def)
  from ordered acc load inside ordered2 acc2 load2 start show ?thesis by blast
qed

text \<open>
  C10 as stated fails at the start of a region. Neither \<^verbatim>\<open>/bin/x\<close> nor \<^verbatim>\<open>/lib/y\<close> has
  readable symbols, so the start of each region is inside it and below every symbol of
  it, and the map name is stored there. The lookup at a start address is an exact match:
  0x3000 symbolizes to the map name with no offset after it, and 0x1000, the first key of
  the map, to the empty string.
\<close>

theorem LoadSymbolsMap_region_start_counterexample:
  "accepted example_entry \<and> accepted example_entry2
   \<and> LoadSymbolsMap False (\<lambda>p. Inr [example_entry, example_entry2]) (\<lambda>path. None) 1
       = Inr [(0x1000, ''map:/bin/x''), (0x2000, []), (0x3000, ''map:/lib/y''), (0x4000, [])]
   \<and> GetSymbolAt (\<lambda>name. None)
        [(0x1000, ''map:/bin/x''), (0x2000, []), (0x3000, ''map:/lib/y''), (0x4000, [])] 0x3000
       = ''map:/lib/y''
   \<and> GetSymbolAt (\<lambda>name. None)
        [(0x1000, ''map:/bin/x''), (0x2000, []), (0x3000, ''map:/lib/y''), (0x4000, [])] 0x1000
       = []"
  by (simp add: LoadSymbolsMap_def LoadSymbolsMap_entry_def accepted_def EndsWith_def
      map_name_def example_entry_def example_entry2_def Let_def GetSymbolAt_def lower_bound_def
      DemangleSymbol_def)

end
